theory Spec2Isabelle
  imports Complex_Main "HOL-Library.AList" "HOL-Library.Log_Nat"
begin

section \<open>JavaScript values read by the model registry\<close>

text \<open>
  A Number value is \<open>NaN\<close>, an infinity, the negative zero, or \<open>Num q\<close>: the double whose
  value is the rational \<open>q\<close> (\<open>Num 0\<close> is the positive zero).
\<close>

datatype jsnum = NaN | PosInf | NegInf | NegZero | Num rat

text \<open>
  The catalogue that \<^verbatim>\<open>refreshOpenRouterModels\<close> fetches is whatever
  \<^verbatim>\<open>response.json()\<close> returns: a JSON value. An object is the association list of its
  own properties (the first pair of a key is the property), a number is the Number value it was
  parsed to (an infinity for a literal beyond the doubles), a string is a list of characters, a
  character being a UTF-16 code unit below 256. \<^verbatim>\<open>undefined\<close> is no JSON value; a read that yields it
  returns \<open>None\<close>.
\<close>

datatype json =
    JNull
  | JBool bool
  | JNum jsnum
  | JStr string
  | JArr "json list"
  | JObj "(string \<times> json) list"

text \<open>
  \<^verbatim>\<open>v?.k\<close> and \<^verbatim>\<open>v.k\<close> for the keys this module reads
  (\<^verbatim>\<open>data\<close>, \<^verbatim>\<open>models\<close>, \<^verbatim>\<open>id\<close>, \<^verbatim>\<open>pricing\<close>,
  \<^verbatim>\<open>prompt\<close>, \<^verbatim>\<open>completion\<close>, \<^verbatim>\<open>request\<close>): none of them is a
  property of a built-in prototype, so the read finds an own property of an object or nothing.
  On \<^verbatim>\<open>null\<close> the optional chain gives \<^verbatim>\<open>undefined\<close>.
\<close>

fun get_prop :: "json \<Rightarrow> string \<Rightarrow> json option" where
  "get_prop (JObj kvs) k = map_of kvs k"
| "get_prop _ k = None"

text \<open>JavaScript truthiness, as \<^verbatim>\<open>&&\<close>, \<^verbatim>\<open>!\<close> and \<^verbatim>\<open>?:\<close> test it.\<close>

fun truthy :: "json option \<Rightarrow> bool" where
  "truthy None = False"
| "truthy (Some JNull) = False"
| "truthy (Some (JBool b)) = b"
| "truthy (Some (JNum n)) = (n \<noteq> Num 0 \<and> n \<noteq> NegZero \<and> n \<noteq> NaN)"
| "truthy (Some (JStr s)) = (s \<noteq> [])"
| "truthy (Some (JArr xs)) = True"
| "truthy (Some (JObj kvs)) = True"

subsection \<open>\<^verbatim>\<open>Number(v)\<close>\<close>

text \<open>
  The double nearest to a rational that is not negative, ties to the even significand:
  53 bits in the binade of the rational, the spacing of the subnormal numbers below
  \<open>2 powi (- 1022)\<close>, and no double (an infinity) from \<open>2 powi 1024\<close> on. A literal is
  converted to the double nearest to the number it denotes, as the engines in use do for
  literals of any length.
\<close>

definition round_half_even :: "rat \<Rightarrow> int" where
  "round_half_even x =
     (let f = \<lfloor>x\<rfloor>; d = x - of_int f
      in if d < 1 / 2 then f else if 1 / 2 < d then f + 1 else if even f then f else f + 1)"

definition binade :: "rat \<Rightarrow> int" where
  "binade q =
     (if 1 \<le> q then bitlen \<lfloor>q\<rfloor> - 1
      else let k = bitlen \<lfloor>1 / q\<rfloor> - 1 in if 2 powi k = 1 / q then - k else - (k + 1))"

definition nearest_double :: "rat \<Rightarrow> rat option" where
  "nearest_double q =
     (if q = 0 then Some 0
      else
        let e = max (binade q) (- 1022);
            ulp = 2 powi (e - 52);
            r = of_int (round_half_even (q / ulp)) * ulp
        in if 2 powi 1024 \<le> r then None else Some r)"

text \<open>The Number value of a sign and a magnitude.\<close>

definition number_value :: "bool \<Rightarrow> rat \<Rightarrow> jsnum" where
  "number_value neg q =
     (case nearest_double q of
        None \<Rightarrow> if neg then NegInf else PosInf
      | Some r \<Rightarrow> if neg then (if r = 0 then NegZero else Num (- r)) else Num r)"

datatype js_error = TypeError

definition is_js_space :: "char \<Rightarrow> bool" where
  "is_js_space c = (c \<in> set [CHR 0x09, CHR 0x0A, CHR 0x0B, CHR 0x0C, CHR 0x0D, CHR 0x20, CHR 0xA0])"

definition trim :: "string \<Rightarrow> string" where
  "trim s = rev (dropWhile is_js_space (rev (dropWhile is_js_space s)))"

definition is_digit :: "char \<Rightarrow> bool" where
  "is_digit c = (c \<in> set ''0123456789'')"

definition digit_of :: "nat \<Rightarrow> char \<Rightarrow> nat option" where
  "digit_of radix c =
     (let v = (if is_digit c then Some (of_char c - 48)
               else if c \<in> set ''abcdef'' then Some (of_char c - 87)
               else if c \<in> set ''ABCDEF'' then Some (of_char c - 55)
               else None)
      in case v of None \<Rightarrow> None | Some d \<Rightarrow> if d < radix then Some d else None)"

definition digits_val :: "nat \<Rightarrow> string \<Rightarrow> int option" where
  "digits_val radix ds =
     (if ds \<noteq> [] \<and> list_all (\<lambda>c. digit_of radix c \<noteq> None) ds
      then Some (foldl (\<lambda>a c. int radix * a + int (the (digit_of radix c))) 0 ds)
      else None)"

fun strip_sign :: "string \<Rightarrow> bool \<times> string" where
  "strip_sign [] = (False, [])"
| "strip_sign (c # cs) =
     (if c = CHR ''-'' then (True, cs) else if c = CHR ''+'' then (False, cs) else (False, c # cs))"

text \<open>\<^verbatim>\<open>0x\<close>, \<^verbatim>\<open>0o\<close> and \<^verbatim>\<open>0b\<close> literals: no sign, at least one digit.\<close>

fun radix_literal :: "string \<Rightarrow> int option" where
  "radix_literal (z # p # ds) =
     (if z \<noteq> CHR ''0'' then None
      else if p \<in> set ''xX'' then digits_val 16 ds
      else if p \<in> set ''oO'' then digits_val 8 ds
      else if p \<in> set ''bB'' then digits_val 2 ds
      else None)"
| "radix_literal _ = None"

text \<open>The exponent part of a decimal literal: nothing, or \<^verbatim>\<open>e\<close> with a signed integer.\<close>

fun exponent_part :: "string \<Rightarrow> int option" where
  "exponent_part [] = Some 0"
| "exponent_part (c # t) =
     (if c \<in> set ''eE''
      then (case strip_sign t of (neg, ds) \<Rightarrow>
              (case digits_val 10 ds of
                 None \<Rightarrow> None
               | Some e \<Rightarrow> Some (if neg then - e else e)))
      else None)"

text \<open>
  A signed decimal literal: \<^verbatim>\<open>Infinity\<close>, or digits with an optional fraction and exponent,
  with a digit before or after the point.
\<close>

definition str_decimal :: "string \<Rightarrow> jsnum" where
  "str_decimal s =
     (case strip_sign s of (neg, r0) \<Rightarrow>
        if r0 = ''Infinity'' then (if neg then NegInf else PosInf)
        else
          let ip = takeWhile is_digit r0;
              r1 = dropWhile is_digit r0;
              fp = (case r1 of [] \<Rightarrow> [] | c # t \<Rightarrow> if c = CHR ''.'' then takeWhile is_digit t else []);
              r2 = (case r1 of [] \<Rightarrow> [] | c # t \<Rightarrow> if c = CHR ''.'' then dropWhile is_digit t else r1)
          in if ip = [] \<and> fp = [] then NaN
             else (case exponent_part r2 of
                     None \<Rightarrow> NaN
                   | Some e \<Rightarrow>
                       number_value neg
                         (of_int (the (digits_val 10 (ip @ fp))) * 10 powi (e - int (length fp)))))"

text \<open>\<^verbatim>\<open>Number(s)\<close> for a string: white space is trimmed, the empty string is 0.\<close>

definition string_to_number :: "string \<Rightarrow> jsnum" where
  "string_to_number s =
     (let t = trim s in
      if t = [] then Num 0
      else (case radix_literal t of
              Some n \<Rightarrow> number_value False (of_int n)
            | None \<Rightarrow> str_decimal t))"

text \<open>
  An object or array is converted through \<^verbatim>\<open>valueOf\<close> and \<^verbatim>\<open>toString\<close>. A parsed JSON
  value holds no function, so an own \<^verbatim>\<open>toString\<close> property hides
  \<^verbatim>\<open>Object.prototype.toString\<close> with something not callable, and the conversion raises a
  TypeError; \<^verbatim>\<open>Array.prototype.join\<close> converts every element that is not
  \<^verbatim>\<open>null\<close> the same way.
\<close>

fun to_primitive_throws :: "json \<Rightarrow> bool" where
  "to_primitive_throws (JObj kvs) = (map_of kvs ''toString'' \<noteq> None)"
| "to_primitive_throws (JArr xs) = (\<exists>x \<in> set xs. to_primitive_throws x)"
| "to_primitive_throws _ = False"

text \<open>
  The number an argument converts to when nothing is raised. An object without its own
  \<^verbatim>\<open>toString\<close> prints as \<^verbatim>\<open>[object Object]\<close>; an array prints as its elements
  joined by commas, so two or more elements never parse, and one element converts as its own
  string does (a number prints as the shortest decimal that reads back as itself, the negative
  zero as \<^verbatim>\<open>0\<close>).
\<close>

fun to_number :: "json \<Rightarrow> jsnum" where
  "to_number JNull = Num 0"
| "to_number (JBool b) = Num (if b then 1 else 0)"
| "to_number (JNum n) = n"
| "to_number (JStr s) = string_to_number s"
| "to_number (JObj kvs) = NaN"
| "to_number (JArr []) = Num 0"
| "to_number (JArr [JNull]) = Num 0"
| "to_number (JArr [JBool b]) = NaN"
| "to_number (JArr [JNum n]) = (if n = NegZero then Num 0 else n)"
| "to_number (JArr [JStr s]) = string_to_number s"
| "to_number (JArr [JObj kvs]) = NaN"
| "to_number (JArr [JArr ys]) = to_number (JArr ys)"
| "to_number (JArr (x # y # zs)) = NaN"

fun js_Number :: "json option \<Rightarrow> js_error + jsnum" where
  "js_Number None = Inr NaN"
| "js_Number (Some v) = (if to_primitive_throws v then Inl TypeError else Inr (to_number v))"

definition isNaN :: "jsnum \<Rightarrow> bool" where
  "isNaN n = (n = NaN)"

section \<open>The pricing repository\<close>

text \<open>
  \<^verbatim>\<open>OpenRouterPricing\<close>, the record the repository takes and returns.
  \<open>requestPrice = None\<close> is \<^verbatim>\<open>null\<close> (or the field left out), \<open>updatedAt = None\<close>
  the field left out.
\<close>

record OpenRouterPricing =
  modelId :: string
  promptPrice :: jsnum
  completionPrice :: jsnum
  requestPrice :: "jsnum option"
  currency :: string
  updatedAt :: "nat option"

text \<open>
  A row of the pricing table: the prices are text, \<open>row_requestPrice = None\<close> is SQL
  \<^verbatim>\<open>NULL\<close>. The store counts the queries sent to it and may be unreachable, in which case a
  query is rejected.
\<close>

record pricing_row =
  row_modelId :: string
  row_promptPrice :: string
  row_completionPrice :: string
  row_requestPrice :: "string option"
  row_currency :: string
  row_updatedAt :: nat

record store =
  pricing_rows :: "pricing_row list"
  round_trips :: nat
  reachable :: bool

datatype db_error = QueryRejected

definition row_to_pricing :: "pricing_row \<Rightarrow> OpenRouterPricing" where
  "row_to_pricing r =
     \<lparr> modelId = row_modelId r,
       promptPrice = string_to_number (row_promptPrice r),
       completionPrice = string_to_number (row_completionPrice r),
       requestPrice = (case row_requestPrice r of None \<Rightarrow> None | Some t \<Rightarrow> Some (string_to_number t)),
       currency = row_currency r,
       updatedAt = Some (row_updatedAt r) \<rparr>"

definition getByModelIds :: "store \<Rightarrow> string list \<Rightarrow> (db_error + OpenRouterPricing list) \<times> store" where
  "getByModelIds db ids =
     (if length ids = 0 then (Inr [], db)
      else
        let db' = db\<lparr>round_trips := round_trips db + 1\<rparr> in
        if \<not> reachable db then (Inl QueryRejected, db')
        else (Inr (map row_to_pricing (filter (\<lambda>r. row_modelId r \<in> set ids) (pricing_rows db))), db'))"

section \<open>The model registry\<close>

subsection \<open>Handles and the static tables\<close>

text \<open>
  A \<^verbatim>\<open>LanguageModel\<close> handle is an object, compared by reference. Each static handle is
  built once, from a provider function and a model name no other static entry uses, so the
  pair identifies it. \<^verbatim>\<open>openrouter(id)\<close> is called again at every refresh: its handle
  carries the number of handles \<^verbatim>\<open>openrouter\<close> had built before it. A handle of the
  openai-compatible layer is identified by what that layer built it from. The provider
  functions are library code; they are taken to return a new handle for every string and never
  to raise.
\<close>

datatype handle =
    OpenAI string
  | Google string
  | Anthropic string
  | XAI string
  | Ollama string
  | Groq string
  | OpenRouter nat string
  | OpenAICompatible string string

type_synonym ModelMap = "(string \<times> handle) list"

definition staticModels :: "(string \<times> ModelMap) list" where
  "staticModels =
     [ (''openai'',
          [ (''gpt-4.1'', OpenAI ''gpt-4.1''),
            (''gpt-4.1-mini'', OpenAI ''gpt-4.1-migrate''),
            (''o4-mini'', OpenAI ''o4-mini''),
            (''o3'', OpenAI ''o3''),
            (''gpt-5'', OpenAI ''gpt-5''),
            (''gpt-5-mini'', OpenAI ''gpt-5-mini''),
            (''gpt-5-nano'', OpenAI ''gpt-5-nano'') ]),
       (''google'',
          [ (''gemini-2.5-flash-lite'', Google ''gemini-2.5-flash-lite''),
            (''gemini-2.5-flash'', Google ''gemini-2.5-flash''),
            (''gemini-2.5-pro'', Google ''gemini-2.5-pro'') ]),
       (''anthropic'',
          [ (''claude-4-sonnet'', Anthropic ''claude-4-sonnet-20250514''),
            (''claude-4-opus'', Anthropic ''claude-4-opus-20250514''),
            (''claude-3-7-sonnet'', Anthropic ''claude-3-7-sonnet-20250219'') ]),
       (''xai'',
          [ (''grok-4'', XAI ''grok-4''),
            (''grok-4-fast'', XAI ''grok-4-fast-non-reasoning''),
            (''grok-3'', XAI ''grok-3''),
            (''grok-3-mini'', XAI ''grok-3-mini'') ]),
       (''ollama'',
          [ (''gemma3:1b'', Ollama ''gemma3:1b''),
            (''gemma3:4b'', Ollama ''gemma3:4b''),
            (''gemma3:12b'', Ollama ''gemma3:12b'') ]),
       (''groq'',
          [ (''kimi-k2-instruct'', Groq ''moonshotai/kimi-k2-instruct''),
            (''llama-4-scout-17b'', Groq ''meta-llama/llama-4-scout-17b-16e-instruct''),
            (''gpt-oss-20b'', Groq ''openai/gpt-oss-20b''),
            (''gpt-oss-120b'', Groq ''openai/gpt-oss-120b''),
            (''qwen3-32b'', Groq ''qwen/qwen3-32b'') ]),
       (''openRouter'', []) ]"

definition staticUnsupportedModels :: "handle list" where
  "staticUnsupportedModels =
     [ OpenAI ''o4-mini'', Ollama ''gemma3:1b'', Ollama ''gemma3:4b'', Ollama ''gemma3:12b'' ]"

definition fallbackModel :: handle where
  "fallbackModel = OpenAI ''gpt-4.1''"

text \<open>The table \<^verbatim>\<open>openRouterDynamicModels\<close> starts from: seven handles, built in this order.\<close>

definition seedModels :: ModelMap where
  "seedModels =
     [ (''gpt-oss-20b:free'', OpenRouter 0 ''openai/gpt-oss-20b:free''),
       (''qwen3-8b:free'', OpenRouter 1 ''qwen/qwen3-8b:free''),
       (''qwen3-14b:free'', OpenRouter 2 ''qwen/qwen3-14b:free''),
       (''qwen3-coder:free'', OpenRouter 3 ''qwen/qwen3-coder:free''),
       (''deepseek-r1:free'', OpenRouter 4 ''deepseek/deepseek-r1-0528:free''),
       (''deepseek-v3:free'', OpenRouter 5 ''deepseek/deepseek-chat-v3-0324:free''),
       (''gemini-2.0-flash-exp:free'', OpenRouter 6 ''google/gemini-2.0-flash-exp:free'') ]"

text \<open>
  What \<^verbatim>\<open>createOpenAICompatibleModels\<close> returned when the module was loaded. That function
  is not part of the source at hand, so its result is a parameter: any provider table and any
  list of handles.
\<close>

record compatible =
  openaiCompatibleModels :: "(string \<times> ModelMap) list"
  openaiCompatibleUnsupportedModels :: "handle list"

text \<open>\<^verbatim>\<open>process.env\<close>: a variable is a string or is not set.\<close>

type_synonym process_env = "string \<Rightarrow> string option"

subsection \<open>Objects\<close>

text \<open>
  An object is the list of its own properties in the order JavaScript enumerates them: the keys
  that are array indices first, ascending, then the other keys in the order they were created.
  An array index is the decimal numeral, without leading zeros, of a number below
  \<open>2 ^ 32 - 1\<close>. Object literals of the module are written in that order already.
\<close>

definition array_index :: "string \<Rightarrow> int option" where
  "array_index k =
     (if k \<noteq> [] \<and> list_all is_digit k \<and> (k = ''0'' \<or> hd k \<noteq> CHR ''0'')
      then (case digits_val 10 k of
              None \<Rightarrow> None
            | Some n \<Rightarrow> if n < 4294967295 then Some n else None)
      else None)"

definition listed_before :: "string \<Rightarrow> string \<Rightarrow> bool" where
  "listed_before k k' =
     (case array_index k of
        None \<Rightarrow> False
      | Some n \<Rightarrow> (case array_index k' of None \<Rightarrow> True | Some n' \<Rightarrow> n < n'))"

fun insert_key :: "string \<Rightarrow> 'a \<Rightarrow> (string \<times> 'a) list \<Rightarrow> (string \<times> 'a) list" where
  "insert_key k v [] = [(k, v)]"
| "insert_key k v (p # ps) =
     (if listed_before k (fst p) then (k, v) # p # ps else p # insert_key k v ps)"

text \<open>Creating or overwriting the own property \<open>k\<close>.\<close>

definition js_set :: "string \<Rightarrow> 'a \<Rightarrow> (string \<times> 'a) list \<Rightarrow> (string \<times> 'a) list" where
  "js_set k v obj = (if map_of obj k = None then insert_key k v obj else AList.update k v obj)"

text \<open>
  An object literal and the result of a spread are plain objects: a key that is not an own
  property is looked up in \<^verbatim>\<open>Object.prototype\<close>. Reading a key finds an own property, or
  a member of \<^verbatim>\<open>Object.prototype\<close> (the names below), or \<^verbatim>\<open>undefined\<close>.
\<close>

datatype 'a property = Own 'a | Inherited | Undefined

definition object_prototype_keys :: "string list" where
  "object_prototype_keys =
     [ ''constructor'', ''hasOwnProperty'', ''isPrototypeOf'', ''propertyIsEnumerable'',
       ''toLocaleString'', ''toString'', ''valueOf'', ''__proto__'',
       ''__defineGetter__'', ''__defineSetter__'', ''__lookupGetter__'', ''__lookupSetter__'' ]"

definition js_get :: "(string \<times> 'a) list \<Rightarrow> string \<Rightarrow> 'a property" where
  "js_get obj k =
     (case map_of obj k of
        Some v \<Rightarrow> Own v
      | None \<Rightarrow> if k \<in> set object_prototype_keys then Inherited else Undefined)"

text \<open>
  \<^verbatim>\<open>{...a, ...b}\<close>: the own properties of \<open>a\<close>, then those of \<open>b\<close> written over them,
  one after the other.
\<close>

definition spread :: "(string \<times> 'a) list \<Rightarrow> (string \<times> 'a) list \<Rightarrow> (string \<times> 'a) list" where
  "spread a b = foldl (\<lambda>acc kv. js_set (fst kv) (snd kv) acc) a b"

text \<open>
  A model map is a plain object, with one exception: the assignment
  \<^verbatim>\<open>fresh[id] = openrouter(id)\<close> of the refresh, for the identifier \<^verbatim>\<open>__proto__\<close>,
  creates no property but makes the handle the prototype of \<^verbatim>\<open>fresh\<close>. So a model map is
  its own properties together with the handle that replaced its prototype, if one did.
\<close>

type_synonym model_object = "ModelMap \<times> handle option"

definition plain :: "string \<times> ModelMap \<Rightarrow> string \<times> model_object" where
  "plain entry = (fst entry, (snd entry, None))"

subsection \<open>The module's variables\<close>

text \<open>
  \<open>openRouterDynamicModels\<close> holds the own properties of the object the variable refers to,
  \<open>dynamic_prototype\<close> the handle that replaced that object's prototype (\<open>None\<close>: it is
  \<^verbatim>\<open>Object.prototype\<close>). \<open>openRouterRefreshTimer\<close> says whether the interval timer is set.
  \<open>allUnsupportedModels\<close> is the set built when the module is loaded. The last four fields
  are not variables of the module; they record what it did: how often
  \<^verbatim>\<open>refreshOpenRouterModels\<close> was entered, how many catalogue requests it sent, the
  arguments of every \<^verbatim>\<open>openRouterPricingRepository.upsert\<close> call in order, and how many
  handles \<^verbatim>\<open>openrouter\<close> has built.
\<close>

record registry =
  openRouterDynamicModels :: ModelMap
  dynamic_prototype :: "handle option"
  openRouterRefreshTimer :: bool
  allUnsupportedModels :: "handle list"
  refresh_calls :: nat
  fetches :: nat
  upserts_issued :: "OpenRouterPricing list"
  handles_built :: nat

definition initial_registry :: "compatible \<Rightarrow> registry" where
  "initial_registry c =
     \<lparr> openRouterDynamicModels = seedModels,
       dynamic_prototype = None,
       openRouterRefreshTimer = False,
       allUnsupportedModels = openaiCompatibleUnsupportedModels c @ staticUnsupportedModels,
       refresh_calls = 0,
       fetches = 0,
       upserts_issued = [],
       handles_built = 7 \<rparr>"

subsection \<open>Credentials\<close>

text \<open>\<^verbatim>\<open>!!key && key != "****"\<close> for a variable of the environment.\<close>

definition usable_key :: "string option \<Rightarrow> bool" where
  "usable_key key = (case key of None \<Rightarrow> False | Some k \<Rightarrow> k \<noteq> [] \<and> k \<noteq> ''****'')"

definition checkProviderAPIKey :: "process_env \<Rightarrow> string \<Rightarrow> bool" where
  "checkProviderAPIKey env provider =
     (if provider = ''openai'' then usable_key (env ''OPENAI_API_KEY'')
      else if provider = ''google'' then usable_key (env ''GOOGLE_GENERATIVE_AI_API_KEY'')
      else if provider = ''anthropic'' then usable_key (env ''ANTHROPIC_API_KEY'')
      else if provider = ''xai'' then usable_key (env ''XAI_API_KEY'')
      else if provider = ''ollama'' then usable_key (env ''OLLAMA_API_KEY'')
      else if provider = ''groq'' then usable_key (env ''GROQ_API_KEY'')
      else if provider = ''openRouter'' then usable_key (env ''OPENROUTER_API_KEY'')
      else True)"

subsection \<open>Lookup\<close>

definition getAllModels :: "compatible \<Rightarrow> registry \<Rightarrow> (string \<times> model_object) list" where
  "getAllModels c s =
     spread (map plain (openaiCompatibleModels c))
            (spread (map plain staticModels)
                    [(''openRouter'', (openRouterDynamicModels s, dynamic_prototype s))])"

definition isToolCallUnsupportedModel :: "registry \<Rightarrow> handle \<Rightarrow> bool" where
  "isToolCallUnsupportedModel s model = (model \<in> set (allUnsupportedModels s))"

record model_info =
  info_name :: string
  info_isToolCallUnsupported :: bool

record provider_info =
  info_provider :: string
  info_models :: "model_info list"
  info_hasAPIKey :: bool

definition modelsInfo :: "compatible \<Rightarrow> process_env \<Rightarrow> registry \<Rightarrow> provider_info list" where
  "modelsInfo c env s =
     map (\<lambda>(provider, models).
            \<lparr> info_provider = provider,
              info_models =
                map (\<lambda>(name, model).
                       \<lparr> info_name = name,
                         info_isToolCallUnsupported = isToolCallUnsupportedModel s model \<rparr>)
                    (fst models),
              info_hasAPIKey = checkProviderAPIKey env provider \<rparr>)
         (getAllModels c s)"

text \<open>
  Two kinds of object that a lookup can reach are not in the source at hand: the built-in
  functions that are the members of \<^verbatim>\<open>Object.prototype\<close>, and the handle objects of
  the provider library. What reading a property of one of them gives is a parameter: a falsy
  value, a truthy value, or the read raises, which is all that \<^verbatim>\<open>|| fallbackModel\<close>
  tells apart. \<open>builtin_property rt p m\<close> is the read of \<open>m\<close> on the function
  \<^verbatim>\<open>Object.prototype[p]\<close>, \<open>handle_property rt h m\<close> the read of \<open>m\<close> on the handle
  object \<open>h\<close>.
\<close>

datatype read = Falsy | Truthy | Raising

record runtime =
  builtin_property :: "string \<Rightarrow> string \<Rightarrow> read"
  handle_property :: "handle \<Rightarrow> string \<Rightarrow> read"

text \<open>
  \<^verbatim>\<open>ChatModel\<close>, the argument of \<^verbatim>\<open>getModel\<close>. What \<^verbatim>\<open>getModel\<close> returns is a handle
  of the tables, or something that is no handle: the member of \<^verbatim>\<open>Object.prototype\<close> the
  model name denotes (a function, or the prototype itself), a truthy property of a built-in
  function or of a handle object; or the call raises.
\<close>

record ChatModel =
  provider :: string
  model :: string

datatype resolved =
    Model handle
  | PrototypeMember string
  | BuiltinProperty string string
  | HandleProperty handle string
  | Raised js_error

definition or_fallback :: "read \<Rightarrow> resolved \<Rightarrow> resolved" where
  "or_fallback r v = (case r of Falsy \<Rightarrow> Model fallbackModel | Truthy \<Rightarrow> v | Raising \<Rightarrow> Raised TypeError)"

text \<open>
  \<^verbatim>\<open>models[name] || fallbackModel\<close> for a model map. On a map whose prototype is a handle,
  \<^verbatim>\<open>__proto__\<close> reads that handle, and any other name that is no own property is read
  from the handle object.
\<close>

definition lookup_model :: "runtime \<Rightarrow> model_object \<Rightarrow> string \<Rightarrow> resolved" where
  "lookup_model rt obj name =
     (case snd obj of
        None \<Rightarrow>
          (case js_get (fst obj) name of
             Own h \<Rightarrow> Model h
           | Inherited \<Rightarrow> PrototypeMember name
           | Undefined \<Rightarrow> Model fallbackModel)
      | Some p \<Rightarrow>
          (case map_of (fst obj) name of
             Some h \<Rightarrow> Model h
           | None \<Rightarrow>
               if name = ''__proto__'' then Model p
               else or_fallback (handle_property rt p name) (HandleProperty p name)))"

text \<open>
  \<^verbatim>\<open>current[model.provider]?.[model.model] || fallbackModel\<close>. The combined table is a
  plain object. A provider name it inherits denotes a built-in function, except
  \<^verbatim>\<open>__proto__\<close>, which denotes \<^verbatim>\<open>Object.prototype\<close> itself: there every member is
  truthy but \<^verbatim>\<open>__proto__\<close>, which is \<^verbatim>\<open>null\<close>.
\<close>

definition getModel :: "runtime \<Rightarrow> compatible \<Rightarrow> registry \<Rightarrow> ChatModel option \<Rightarrow> resolved" where
  "getModel rt c s request =
     (case request of
        None \<Rightarrow> Model fallbackModel
      | Some m \<Rightarrow>
          (case js_get (getAllModels c s) (provider m) of
             Undefined \<Rightarrow> Model fallbackModel
           | Inherited \<Rightarrow>
               if provider m = ''__proto__''
               then (if model m \<in> set object_prototype_keys \<and> model m \<noteq> ''__proto__''
                     then PrototypeMember (model m)
                     else Model fallbackModel)
               else or_fallback (builtin_property rt (provider m) (model m))
                                (BuiltinProperty (provider m) (model m))
           | Own models \<Rightarrow> lookup_model rt models (model m)))"

subsection \<open>Refreshing the dynamic table\<close>

text \<open>
  What the catalogue request came to: \<^verbatim>\<open>fetch\<close> rejected, or a response with its
  \<^verbatim>\<open>ok\<close> flag and the value \<^verbatim>\<open>response.json()\<close> resolves to (\<open>None\<close> when the body
  is not JSON and \<^verbatim>\<open>json()\<close> rejects).
\<close>

datatype fetch_outcome = FetchRejected | Response bool "json option"

text \<open>\<^verbatim>\<open>data?.data\<close> if that is an array, else \<^verbatim>\<open>data?.models\<close> if that is one, else \<^verbatim>\<open>[]\<close>.\<close>

definition entry_list :: "json \<Rightarrow> json list" where
  "entry_list data =
     (case get_prop data ''data'' of
        Some (JArr xs) \<Rightarrow> xs
      | _ \<Rightarrow> (case get_prop data ''models'' of Some (JArr ys) \<Rightarrow> ys | _ \<Rightarrow> []))"

text \<open>
  \<^verbatim>\<open>const id = m?.id; if (!id || typeof id !== "string") continue;\<close> The entry is processed
  only when its \<^verbatim>\<open>id\<close> is a string that is not empty.
\<close>

definition entry_id :: "json \<Rightarrow> string option" where
  "entry_id m =
     (case get_prop m ''id'' of
        Some (JStr i) \<Rightarrow> if i = [] then None else Some i
      | _ \<Rightarrow> None)"

text \<open>
  The variables of the loop: \<^verbatim>\<open>fresh\<close> (its own properties, and the handle that replaced
  its prototype), \<^verbatim>\<open>upserts\<close> and the count of handles built.
\<close>

record loop_vars =
  fresh :: ModelMap
  fresh_prototype :: "handle option"
  upserts :: "OpenRouterPricing list"
  built :: nat

text \<open>
  \<^verbatim>\<open>fresh[id] = openrouter(id)\<close>. The assignment creates or overwrites an own property for
  every key but \<^verbatim>\<open>__proto__\<close>: that key is the accessor of \<^verbatim>\<open>Object.prototype\<close>, and
  assigning an object to it creates no property and makes the object the prototype of
  \<^verbatim>\<open>fresh\<close>. The handle objects are taken to carry writable data properties only, so that
  the assignments after it create their properties as before.
\<close>

definition assign_fresh :: "string \<Rightarrow> loop_vars \<Rightarrow> loop_vars" where
  "assign_fresh i v =
     (if i = ''__proto__''
      then v\<lparr> fresh_prototype := Some (OpenRouter (built v) i), built := built v + 1 \<rparr>
      else v\<lparr> fresh := js_set i (OpenRouter (built v) i) (fresh v), built := built v + 1 \<rparr>)"

text \<open>
  One pass of the loop body ends normally (\<^verbatim>\<open>continue\<close> included), or raises what a
  \<^verbatim>\<open>Number\<close> call raised.
\<close>

datatype loop_result = Completed loop_vars | Threw loop_vars

definition loop_body :: "json \<Rightarrow> loop_vars \<Rightarrow> loop_result" where
  "loop_body m v =
     (case entry_id m of
        None \<Rightarrow> Completed v
      | Some i \<Rightarrow>
          let v1 = assign_fresh i v
          in (case get_prop m ''pricing'' of
                None \<Rightarrow> Completed v1
              | Some pricing \<Rightarrow>
                  if truthy (Some pricing) \<and> truthy (get_prop pricing ''prompt'')
                     \<and> truthy (get_prop pricing ''completion'')
                  then
                    (case js_Number (get_prop pricing ''prompt'') of
                       Inl e \<Rightarrow> Threw v1
                     | Inr prompt_price \<Rightarrow>
                    (case js_Number (get_prop pricing ''completion'') of
                       Inl e \<Rightarrow> Threw v1
                     | Inr completion_price \<Rightarrow>
                    (case (if truthy (get_prop pricing ''request'')
                           then map_sum id Some (js_Number (get_prop pricing ''request''))
                           else Inr None) of
                       Inl e \<Rightarrow> Threw v1
                     | Inr request_price \<Rightarrow>
                         if \<not> isNaN prompt_price \<and> \<not> isNaN completion_price
                         then Completed
                                (v1\<lparr> upserts := upserts v1 @
                                       [\<lparr> modelId = i,
                                          promptPrice = prompt_price,
                                          completionPrice = completion_price,
                                          requestPrice = request_price,
                                          currency = ''USD'',
                                          updatedAt = None \<rparr>] \<rparr>)
                         else Completed v1)))
                  else Completed v1))"

fun for_of :: "json list \<Rightarrow> loop_vars \<Rightarrow> loop_result" where
  "for_of [] v = Completed v"
| "for_of (m # ms) v =
     (case loop_body m v of
        Completed v' \<Rightarrow> for_of ms v'
      | Threw v' \<Rightarrow> Threw v')"

text \<open>
  One call of \<^verbatim>\<open>refreshOpenRouterModels\<close>, given the environment it reads and what its
  request comes to. The \<^verbatim>\<open>catch\<close> swallows whatever was raised: the table is then the one
  before, and the upserts already called stay called.
\<close>

definition refreshOpenRouterModels :: "process_env \<Rightarrow> fetch_outcome \<Rightarrow> registry \<Rightarrow> registry" where
  "refreshOpenRouterModels env outcome s =
     (let s0 = s\<lparr>refresh_calls := refresh_calls s + 1\<rparr> in
      case env ''OPENROUTER_API_KEY'' of
        None \<Rightarrow> s0
      | Some apiKey \<Rightarrow>
          if apiKey = [] \<or> apiKey = ''****'' then s0
          else
            let s1 = s0\<lparr>fetches := fetches s0 + 1\<rparr> in
            (case outcome of
               FetchRejected \<Rightarrow> s1
             | Response ok body \<Rightarrow>
                 if \<not> ok then s1
                 else
                   (case body of
                      None \<Rightarrow> s1
                    | Some data \<Rightarrow>
                        (case for_of (entry_list data)
                                \<lparr> fresh = [], fresh_prototype = None, upserts = [],
                                  built = handles_built s1 \<rparr> of
                           Threw v \<Rightarrow>
                             s1\<lparr> upserts_issued := upserts_issued s1 @ upserts v,
                                 handles_built := built v \<rparr>
                         | Completed v \<Rightarrow>
                             (if length (fresh v) > 0
                              then s1\<lparr> openRouterDynamicModels := fresh v,
                                      dynamic_prototype := fresh_prototype v,
                                      upserts_issued := upserts_issued s1 @ upserts v,
                                      handles_built := built v \<rparr>
                              else s1\<lparr> upserts_issued := upserts_issued s1 @ upserts v,
                                      handles_built := built v \<rparr>)))))"

subsection \<open>The schedule\<close>

text \<open>
  \<^verbatim>\<open>startOpenRouterRefreshSchedule\<close>, with what the first refresh's request comes to. The
  refresh it starts is taken to run to its end at once: it shares no variable with the rest of
  the function.
\<close>

definition startOpenRouterRefreshSchedule :: "process_env \<Rightarrow> fetch_outcome \<Rightarrow> registry \<Rightarrow> registry" where
  "startOpenRouterRefreshSchedule env outcome s =
     (if \<not> checkProviderAPIKey env ''openRouter'' then s
      else
        let s1 = refreshOpenRouterModels env outcome s
        in if \<not> openRouterRefreshTimer s1 then s1\<lparr>openRouterRefreshTimer := True\<rparr> else s1)"

text \<open>Loading the module: the variables are initialised and the schedule is started, once.\<close>

definition load_module :: "compatible \<Rightarrow> process_env \<Rightarrow> fetch_outcome \<Rightarrow> registry" where
  "load_module c env outcome = startOpenRouterRefreshSchedule env outcome (initial_registry c)"

text \<open>
  After loading, the only code of the module that writes a variable is the interval callback.
  It runs when a timer that was set fires, in whatever environment the process has then and
  with whatever its request comes to.
\<close>

datatype event = TimerFires process_env fetch_outcome

fun run :: "event list \<Rightarrow> registry \<Rightarrow> registry" where
  "run [] s = s"
| "run (TimerFires env outcome # evs) s =
     (if openRouterRefreshTimer s
      then run evs (refreshOpenRouterModels env outcome s)
      else run evs s)"

definition lifetime :: "compatible \<Rightarrow> process_env \<Rightarrow> fetch_outcome \<Rightarrow> event list \<Rightarrow> registry" where
  "lifetime c env outcome evs = run evs (load_module c env outcome)"

subsection \<open>Names used to state the properties\<close>

text \<open>
  The environment variable each \<^verbatim>\<open>case\<close> of \<^verbatim>\<open>checkProviderAPIKey\<close> reads, as a
  table.
\<close>

definition provider_secrets :: "(string \<times> string) list" where
  "provider_secrets =
     [ (''openai'', ''OPENAI_API_KEY''),
       (''google'', ''GOOGLE_GENERATIVE_AI_API_KEY''),
       (''anthropic'', ''ANTHROPIC_API_KEY''),
       (''xai'', ''XAI_API_KEY''),
       (''ollama'', ''OLLAMA_API_KEY''),
       (''groq'', ''GROQ_API_KEY''),
       (''openRouter'', ''OPENROUTER_API_KEY'') ]"

text \<open>
  The identifiers the loop accepts, in the order of the entries: the parsed entry list. A price
  field of an entry (\<^verbatim>\<open>m?.pricing\<close>, then the field, \<^verbatim>\<open>undefined\<close> when either is
  missing). Whether a value converts to a number that is not \<open>NaN\<close>. Whether the loop
  body's \<^verbatim>\<open>Number\<close> calls raise on an entry (they are reached only when the entry has an
  identifier and its \<^verbatim>\<open>prompt\<close> and \<^verbatim>\<open>completion\<close> are truthy). The entries the loop
  goes through without raising: those before the first on which a conversion raises. And the
  upserts the loop body calls for an entry: they do not depend on the variables it starts
  from.
\<close>

definition catalogue_ids :: "json list \<Rightarrow> string list" where
  "catalogue_ids ms = List.map_filter entry_id ms"

definition price_field :: "json \<Rightarrow> string \<Rightarrow> json option" where
  "price_field m k = (case get_prop m ''pricing'' of None \<Rightarrow> None | Some pricing \<Rightarrow> get_prop pricing k)"

definition parses_as_number :: "json option \<Rightarrow> bool" where
  "parses_as_number x = (case js_Number x of Inl e \<Rightarrow> False | Inr n \<Rightarrow> \<not> isNaN n)"

definition conversion_raises :: "json \<Rightarrow> bool" where
  "conversion_raises m =
     (entry_id m \<noteq> None
      \<and> truthy (price_field m ''prompt'') \<and> truthy (price_field m ''completion'')
      \<and> (isl (js_Number (price_field m ''prompt''))
           \<or> isl (js_Number (price_field m ''completion''))
           \<or> isl (js_Number (price_field m ''request''))))"

definition completed_entries :: "json list \<Rightarrow> json list" where
  "completed_entries ms = takeWhile (\<lambda>m. \<not> conversion_raises m) ms"

definition entry_upserts :: "json \<Rightarrow> OpenRouterPricing list" where
  "entry_upserts m =
     (case loop_body m \<lparr> fresh = [], fresh_prototype = None, upserts = [], built = 0 \<rparr> of
        Completed v \<Rightarrow> upserts v
      | Threw v \<Rightarrow> upserts v)"

section \<open>Properties of the pricing repository\<close>

text \<open>
  C9. \<^verbatim>\<open>getByModelIds\<close> applied to an empty list of ids returns an empty result and leaves
  the store as it was: no query is counted, and the answer does not depend on the store being
  reachable.
\<close>

theorem getByModelIds_empty: "getByModelIds db [] = (Inr [], db)"
  by (simp add: getByModelIds_def)

section \<open>Properties of the credential check\<close>

lemma usable_key_iff: "usable_key key = (\<exists>k. key = Some k \<and> k \<noteq> [] \<and> k \<noteq> ''****'')"
  by (cases key) (simp_all add: usable_key_def)

lemma check_listed:
  "(p, var) \<in> set provider_secrets \<Longrightarrow> checkProviderAPIKey env p = usable_key (env var)"
  by (auto simp add: provider_secrets_def checkProviderAPIKey_def)

lemma check_unlisted:
  "p \<notin> fst ` set provider_secrets \<Longrightarrow> checkProviderAPIKey env p"
  by (simp add: provider_secrets_def checkProviderAPIKey_def)

lemma modelsInfo_hasAPIKey:
  "map info_hasAPIKey (modelsInfo c env s)
     = map (checkProviderAPIKey env) (map info_provider (modelsInfo c env s))"
  by (simp add: modelsInfo_def case_prod_beta comp_def)

text \<open>
  C7, as stated, fails: the check is not "true if and only if the provider's secret is set" for
  every provider. For a provider that is none of the seven static ones (the providers of the
  openai-compatible layer, which \<^verbatim>\<open>modelsInfo\<close> passes to the check as well) the
  \<^verbatim>\<open>default\<close> branch answers true, whatever the environment holds: here it holds
  nothing at all.
\<close>

theorem credential_check_counterexample:
  "checkProviderAPIKey Map.empty ''lmstudio'' \<and> dom (Map.empty :: process_env) = {}"
  by (simp add: checkProviderAPIKey_def)

text \<open>
  C7, amended. For each of the seven static providers the check is true if and only if that
  provider's environment variable is set, not empty and not \<^verbatim>\<open>****\<close>; for every other
  provider name it is true. It is a function of the environment and the name alone, and
  \<^verbatim>\<open>modelsInfo\<close> reports, for every provider it lists, the value of the check in the
  environment of that call.
\<close>

theorem credential_check:
  "(\<forall>var. (p, var) \<in> set provider_secrets \<longrightarrow>
       checkProviderAPIKey env p = (\<exists>k. env var = Some k \<and> k \<noteq> [] \<and> k \<noteq> ''****''))
   \<and> (p \<notin> fst ` set provider_secrets \<longrightarrow> checkProviderAPIKey env p)
   \<and> map info_hasAPIKey (modelsInfo c env s)
       = map (checkProviderAPIKey env) (map info_provider (modelsInfo c env s))"
  using check_listed [of p _ env] check_unlisted [of p env] modelsInfo_hasAPIKey [of c env s]
  by (simp add: usable_key_iff)

theorem credential_check_witness:
  "(''anthropic'', ''ANTHROPIC_API_KEY'') \<in> set provider_secrets
   \<and> checkProviderAPIKey [''ANTHROPIC_API_KEY'' \<mapsto> ''sk-ant-1''] ''anthropic''
   \<and> \<not> checkProviderAPIKey [''ANTHROPIC_API_KEY'' \<mapsto> ''****''] ''anthropic''
   \<and> \<not> checkProviderAPIKey [''OPENAI_API_KEY'' \<mapsto> ''sk-1''] ''anthropic''
   \<and> ''lmstudio'' \<notin> fst ` set provider_secrets
   \<and> checkProviderAPIKey [''ANTHROPIC_API_KEY'' \<mapsto> ''****''] ''lmstudio''"
proof -
  have listed: "(''anthropic'', ''ANTHROPIC_API_KEY'') \<in> set provider_secrets"
    by (simp add: provider_secrets_def)
  have unlisted: "''lmstudio'' \<notin> fst ` set provider_secrets"
    by (simp add: provider_secrets_def)
  note a = credential_check [of "''anthropic''" "[''ANTHROPIC_API_KEY'' \<mapsto> ''sk-ant-1'']"]
  note b = credential_check [of "''anthropic''" "[''ANTHROPIC_API_KEY'' \<mapsto> ''****'']"]
  note c = credential_check [of "''anthropic''" "[''OPENAI_API_KEY'' \<mapsto> ''sk-1'']"]
  note d = credential_check [of "''lmstudio''" "[''ANTHROPIC_API_KEY'' \<mapsto> ''****'']"]
  show ?thesis using listed unlisted a b c d by simp
qed

section \<open>Properties of the combined table\<close>

lemma map_of_insert_key:
  "map_of al k = None \<Longrightarrow> map_of (insert_key k v al) = (map_of al)(k \<mapsto> v)"
  by (induction al) (auto simp add: fun_eq_iff)

lemma map_of_js_set: "map_of (js_set k v al) = (map_of al)(k \<mapsto> v)"
  by (simp add: js_set_def map_of_insert_key update_conv')

lemma keys_insert_key: "fst ` set (insert_key k v al) = insert k (fst ` set al)"
  by (induction al) auto

lemma keys_js_set: "fst ` set (js_set k v al) = insert k (fst ` set al)"
  by (simp add: js_set_def keys_insert_key dom_update)

lemma distinct_insert_key:
  "map_of al k = None \<Longrightarrow> distinct (map fst al) \<Longrightarrow> distinct (map fst (insert_key k v al))"
proof (induction al)
  case Nil
  show ?case by simp
next
  case (Cons p ps)
  from Cons.prems have k: "k \<noteq> fst p" "map_of ps k = None" and d: "distinct (map fst ps)" "fst p \<notin> fst ` set ps"
    by (auto split: if_splits)
  from k(2) have "k \<notin> fst ` set ps" by (simp add: map_of_eq_None_iff)
  with Cons.IH [OF k(2) d(1)] k d keys_insert_key [of k v ps] show ?case
    by auto
qed

lemma distinct_js_set: "distinct (map fst al) \<Longrightarrow> distinct (map fst (js_set k v al))"
  by (simp add: js_set_def distinct_insert_key distinct_update)

lemma js_set_nonempty: "js_set k v al \<noteq> []"
  using keys_js_set [of k v al] by auto

lemma map_of_spread:
  "distinct (map fst b) \<Longrightarrow> map_of (spread a b) = map_of a ++ map_of b"
  unfolding spread_def
proof (induction b arbitrary: a)
  case Nil
  show ?case by simp
next
  case (Cons kv b)
  from Cons.prems have d: "distinct (map fst b)" and k: "fst kv \<notin> dom (map_of b)"
    by (auto simp add: dom_map_of_conv_image_fst)
  have "map_of (foldl (\<lambda>acc kv. js_set (fst kv) (snd kv) acc) (js_set (fst kv) (snd kv) a) b)
          = map_of (js_set (fst kv) (snd kv) a) ++ map_of b"
    by (rule Cons.IH [OF d])
  also have "\<dots> = (map_of a)(fst kv \<mapsto> snd kv) ++ map_of b"
    by (simp only: map_of_js_set)
  also have "\<dots> = (map_of a ++ map_of b)(fst kv \<mapsto> snd kv)"
    using k by (rule map_add_upd_left)
  also have "\<dots> = map_of a ++ map_of (kv # b)"
    by (simp only: map_of.simps map_add_upd)
  finally show ?case by (simp only: foldl_Cons)
qed

lemma distinct_spread:
  "distinct (map fst a) \<Longrightarrow> distinct (map fst (spread a b))"
  unfolding spread_def
  by (induction b arbitrary: a) (simp_all add: distinct_js_set)

lemma static_keys_distinct: "distinct (map fst staticModels)"
  by (simp add: staticModels_def)

lemma plain_keys: "map fst (map plain al) = map fst al"
  by (simp add: plain_def comp_def)

lemma static_lookup_defined:
  assumes "(p, ms) \<in> set staticModels"
  shows "map_of (map plain staticModels) p = Some (ms, None)"
proof -
  have "distinct (map fst (map plain staticModels))"
    using static_keys_distinct by (simp only: plain_keys)
  moreover from assms have "(p, (ms, None)) \<in> set (map plain staticModels)"
    by (force simp add: plain_def)
  ultimately show ?thesis by (rule map_of_is_SomeI)
qed

lemma static_overlay:
  "map_of (spread (map plain staticModels) [(''openRouter'', d)]) p
     = (if p = ''openRouter'' then Some d else map_of (map plain staticModels) p)"
  by (simp add: map_of_spread)

lemma getAllModels_static:
  assumes "(p, ms) \<in> set staticModels"
  shows "map_of (getAllModels c s) p
           = Some (if p = ''openRouter'' then (openRouterDynamicModels s, dynamic_prototype s)
                   else (ms, None))"
proof -
  have "distinct (map fst (map plain staticModels))"
    using static_keys_distinct by (simp only: plain_keys)
  then have "distinct (map fst (spread (map plain staticModels)
                 [(''openRouter'', (openRouterDynamicModels s, dynamic_prototype s))]))"
    by (rule distinct_spread)
  then show ?thesis
    using static_lookup_defined [OF assms]
    by (simp add: getAllModels_def map_of_spread static_overlay map_add_def)
qed

lemma getAllModels_distinct:
  assumes "distinct (map fst (openaiCompatibleModels c))"
  shows "distinct (map fst (getAllModels c s))"
proof -
  from assms have "distinct (map fst (map plain (openaiCompatibleModels c)))"
    by (simp only: plain_keys)
  then show ?thesis unfolding getAllModels_def by (rule distinct_spread)
qed

text \<open>
  C10. A provider name that is a key of the static tables resolves, in the combined table, to
  the static model map (for \<^verbatim>\<open>openRouter\<close>: to the dynamic table, with the prototype
  it has), whatever the openai-compatible layer supplied under the same name.
  \<^verbatim>\<open>getModel\<close> looks the model name up in that map, and \<^verbatim>\<open>modelsInfo\<close> lists that
  map's names for the provider (given that the compatible layer's table, an object, has no key
  twice).
\<close>

theorem static_shadows_compatible:
  "(p, ms) \<in> set staticModels \<longrightarrow>
     js_get (getAllModels c s) p
       = Own (if p = ''openRouter'' then (openRouterDynamicModels s, dynamic_prototype s) else (ms, None))
     \<and> getModel rt c s (Some \<lparr>provider = p, model = m\<rparr>)
         = (if p = ''openRouter'' \<and> dynamic_prototype s \<noteq> None
            then lookup_model rt (openRouterDynamicModels s, dynamic_prototype s) m
            else (case js_get (if p = ''openRouter'' then openRouterDynamicModels s else ms) m of
                    Own h \<Rightarrow> Model h | Inherited \<Rightarrow> PrototypeMember m | Undefined \<Rightarrow> Model fallbackModel))
     \<and> (distinct (map fst (openaiCompatibleModels c)) \<longrightarrow>
         (\<forall>i \<in> set (modelsInfo c env s). info_provider i = p \<longrightarrow>
           map info_name (info_models i)
             = map fst (if p = ''openRouter'' then openRouterDynamicModels s else ms)))"
proof
  assume st: "(p, ms) \<in> set staticModels"
  let ?ms = "if p = ''openRouter'' then openRouterDynamicModels s else ms"
  let ?obj = "if p = ''openRouter'' then (openRouterDynamicModels s, dynamic_prototype s) else (ms, None)"
  have a: "js_get (getAllModels c s) p = Own ?obj" for c
    using getAllModels_static [OF st, of c s] by (simp add: js_get_def)
  have b: "getModel rt c s (Some \<lparr>provider = p, model = m\<rparr>)
         = (if p = ''openRouter'' \<and> dynamic_prototype s \<noteq> None
            then lookup_model rt (openRouterDynamicModels s, dynamic_prototype s) m
            else (case js_get ?ms m of
                    Own h \<Rightarrow> Model h | Inherited \<Rightarrow> PrototypeMember m | Undefined \<Rightarrow> Model fallbackModel))"
    by (auto simp add: getModel_def a lookup_model_def split: property.splits)
  have c: "map info_name (info_models i) = map fst ?ms"
    if d: "distinct (map fst (openaiCompatibleModels c))"
      and i: "i \<in> set (modelsInfo c env s)" "info_provider i = p" for i
  proof -
    from i obtain qs where q: "(p, qs) \<in> set (getAllModels c s)"
      and n: "map info_name (info_models i) = map fst (fst qs)"
      by (auto simp add: modelsInfo_def comp_def case_prod_beta)
    from getAllModels_distinct [OF d] q have "map_of (getAllModels c s) p = Some qs"
      by (rule map_of_is_SomeI)
    with getAllModels_static [OF st, of c s] have "fst qs = ?ms" by auto
    with n show ?thesis by simp
  qed
  from a have a': "js_get (getAllModels c s) p = Own ?obj" .
  from c have c': "distinct (map fst (openaiCompatibleModels c)) \<longrightarrow>
         (\<forall>i \<in> set (modelsInfo c env s). info_provider i = p \<longrightarrow>
           map info_name (info_models i) = map fst ?ms)"
    by (intro impI ballI)
  from a' b c' show "js_get (getAllModels c s) p = Own ?obj
     \<and> getModel rt c s (Some \<lparr>provider = p, model = m\<rparr>)
         = (if p = ''openRouter'' \<and> dynamic_prototype s \<noteq> None
            then lookup_model rt (openRouterDynamicModels s, dynamic_prototype s) m
            else (case js_get (if p = ''openRouter'' then openRouterDynamicModels s else ms) m of
                    Own h \<Rightarrow> Model h | Inherited \<Rightarrow> PrototypeMember m | Undefined \<Rightarrow> Model fallbackModel))
     \<and> (distinct (map fst (openaiCompatibleModels c)) \<longrightarrow>
         (\<forall>i \<in> set (modelsInfo c env s). info_provider i = p \<longrightarrow>
           map info_name (info_models i) = map fst ?ms))"
    by (intro conjI)
qed

theorem static_shadows_compatible_witness:
  "(''ollama'', [(''gemma3:1b'', Ollama ''gemma3:1b''), (''gemma3:4b'', Ollama ''gemma3:4b''),
                 (''gemma3:12b'', Ollama ''gemma3:12b'')]) \<in> set staticModels
   \<and> map_of [(''ollama'', [(''gemma3:1b'', OpenAICompatible ''ollama'' ''mine'')])] ''ollama''
        = Some [(''gemma3:1b'', OpenAICompatible ''ollama'' ''mine'')]
   \<and> getModel \<lparr>builtin_property = \<lambda>p m. Falsy, handle_property = \<lambda>h m. Falsy\<rparr>
        \<lparr>openaiCompatibleModels = [(''ollama'', [(''gemma3:1b'', OpenAICompatible ''ollama'' ''mine'')])],
         openaiCompatibleUnsupportedModels = []\<rparr>
        (initial_registry
           \<lparr>openaiCompatibleModels = [(''ollama'', [(''gemma3:1b'', OpenAICompatible ''ollama'' ''mine'')])],
            openaiCompatibleUnsupportedModels = []\<rparr>)
        (Some \<lparr>provider = ''ollama'', model = ''gemma3:1b''\<rparr>)
      = Model (Ollama ''gemma3:1b'')"
proof -
  have st: "(''ollama'', [(''gemma3:1b'', Ollama ''gemma3:1b''), (''gemma3:4b'', Ollama ''gemma3:4b''),
                          (''gemma3:12b'', Ollama ''gemma3:12b'')]) \<in> set staticModels"
    by (simp add: staticModels_def)
  show ?thesis
    using st static_shadows_compatible
      [of "''ollama''"
          "[(''gemma3:1b'', Ollama ''gemma3:1b''), (''gemma3:4b'', Ollama ''gemma3:4b''),
            (''gemma3:12b'', Ollama ''gemma3:12b'')]"
          "\<lparr>openaiCompatibleModels = [(''ollama'', [(''gemma3:1b'', OpenAICompatible ''ollama'' ''mine'')])],
            openaiCompatibleUnsupportedModels = []\<rparr>"
          "initial_registry
           \<lparr>openaiCompatibleModels = [(''ollama'', [(''gemma3:1b'', OpenAICompatible ''ollama'' ''mine'')])],
            openaiCompatibleUnsupportedModels = []\<rparr>"
          "\<lparr>builtin_property = \<lambda>p m. Falsy, handle_property = \<lambda>h m. Falsy\<rparr>" "''gemma3:1b''"]
    by (simp add: js_get_def)
qed

section \<open>Properties of \<^verbatim>\<open>getModel\<close>\<close>

lemma openai_static:
  "(''openai'',
      [ (''gpt-4.1'', OpenAI ''gpt-4.1''),
        (''gpt-4.1-mini'', OpenAI ''gpt-4.1-migrate''),
        (''o4-mini'', OpenAI ''o4-mini''),
        (''o3'', OpenAI ''o3''),
        (''gpt-5'', OpenAI ''gpt-5''),
        (''gpt-5-mini'', OpenAI ''gpt-5-mini''),
        (''gpt-5-nano'', OpenAI ''gpt-5-nano'') ]) \<in> set staticModels"
  by (simp add: staticModels_def)

lemma getModel_no_request: "getModel rt c s None = Model fallbackModel"
  by (simp add: getModel_def)

lemma getModel_request:
  "js_get (getAllModels c s) p = Own models
     \<Longrightarrow> getModel rt c s (Some \<lparr>provider = p, model = m\<rparr>) = lookup_model rt models m"
  by (simp add: getModel_def)

lemma getModel_present:
  "map_of (getAllModels c s) p = Some (ms, proto) \<Longrightarrow> map_of ms m = Some h
     \<Longrightarrow> getModel rt c s (Some \<lparr>provider = p, model = m\<rparr>) = Model h"
  by (cases proto) (simp_all add: getModel_def lookup_model_def js_get_def)

lemma getModel_absent:
  "p \<notin> set object_prototype_keys \<Longrightarrow> m \<notin> set object_prototype_keys
     \<Longrightarrow> map_of (getAllModels c s) p = None
           \<or> (\<exists>ms. map_of (getAllModels c s) p = Some (ms, None) \<and> map_of ms m = None)
     \<Longrightarrow> getModel rt c s (Some \<lparr>provider = p, model = m\<rparr>) = Model fallbackModel"
  by (auto simp add: getModel_def lookup_model_def js_get_def)

text \<open>
  C1 does not hold of the code. The request \<^verbatim>\<open>{provider: "openai", model: "constructor"}\<close>
  names a model that is no entry of the \<^verbatim>\<open>openai\<close> table, and \<^verbatim>\<open>getModel\<close>
  returns neither the fallback handle nor any handle: the lookup
  \<^verbatim>\<open>current["openai"]?.["constructor"]\<close> finds the \<^verbatim>\<open>constructor\<close> member the
  table inherits from \<^verbatim>\<open>Object.prototype\<close>, which is truthy, so
  \<^verbatim>\<open>|| fallbackModel\<close> is not reached. This holds for every table of the compatible
  layer, every state of the registry and whatever the properties of the built-in objects are.
  (The lemmas above are the claim on names that \<^verbatim>\<open>Object.prototype\<close> does not define.)
\<close>

theorem getModel_inherited_member:
  "getModel rt c s (Some \<lparr>provider = ''openai'', model = ''constructor''\<rparr>) = PrototypeMember ''constructor''
   \<and> map_of (getAllModels c s) ''openai'' = map_of (map plain staticModels) ''openai''
   \<and> map_of (the (map_of staticModels ''openai'')) ''constructor'' = None
   \<and> PrototypeMember ''constructor'' \<noteq> Model fallbackModel"
proof -
  let ?ms = "[ (''gpt-4.1'', OpenAI ''gpt-4.1''),
        (''gpt-4.1-mini'', OpenAI ''gpt-4.1-migrate''),
        (''o4-mini'', OpenAI ''o4-mini''),
        (''o3'', OpenAI ''o3''),
        (''gpt-5'', OpenAI ''gpt-5''),
        (''gpt-5-mini'', OpenAI ''gpt-5-mini''),
        (''gpt-5-nano'', OpenAI ''gpt-5-nano'') ]"
  have a: "js_get (getAllModels c s) ''openai'' = Own (?ms, None)"
    and b: "map_of (getAllModels c s) ''openai'' = map_of (map plain staticModels) ''openai''"
    using getAllModels_static [OF openai_static, of c s] static_lookup_defined [OF openai_static]
    by (simp_all add: js_get_def)
  have c: "the (map_of staticModels ''openai'') = ?ms"
    by (simp add: staticModels_def)
  have d: "getModel rt c s (Some \<lparr>provider = ''openai'', model = ''constructor''\<rparr>) = PrototypeMember ''constructor''"
    by (simp only: getModel_request [OF a])
       (simp add: lookup_model_def js_get_def object_prototype_keys_def)
  have e: "map_of (the (map_of staticModels ''openai'')) ''constructor'' = None"
    by (simp add: c)
  from d b e show ?thesis by simp
qed

section \<open>Properties of the unsupported set and of the schedule\<close>

lemma refresh_keeps_unsupported:
  "allUnsupportedModels (refreshOpenRouterModels env outcome s) = allUnsupportedModels s"
  by (simp add: refreshOpenRouterModels_def Let_def
           split: option.splits fetch_outcome.splits loop_result.splits)

lemma run_keeps_unsupported: "allUnsupportedModels (run evs s) = allUnsupportedModels s"
proof (induction evs arbitrary: s)
  case Nil
  show ?case by simp
next
  case (Cons ev evs)
  obtain env outcome where ev: "ev = TimerFires env outcome" by (cases ev)
  show ?case
    by (simp add: ev Cons.IH refresh_keeps_unsupported)
qed

lemma load_keeps_unsupported:
  "allUnsupportedModels (load_module c env outcome)
     = openaiCompatibleUnsupportedModels c @ staticUnsupportedModels"
  by (simp add: load_module_def startOpenRouterRefreshSchedule_def Let_def
                refresh_keeps_unsupported initial_registry_def)

text \<open>
  C5. At every point of the process's life \<^verbatim>\<open>isToolCallUnsupportedModel\<close> is true of a
  handle exactly when the handle is in the set built at load time, the compatible layer's
  unsupported handles and the static list; and no run of refreshes, from any state, changes its
  answer for any handle.
\<close>

theorem unsupported_set_fixed:
  "isToolCallUnsupportedModel (lifetime c env outcome evs) h
     = (h \<in> set (openaiCompatibleUnsupportedModels c) \<union> set staticUnsupportedModels)
   \<and> isToolCallUnsupportedModel (run evs' s0) h = isToolCallUnsupportedModel s0 h"
  by (simp add: isToolCallUnsupportedModel_def lifetime_def run_keeps_unsupported
                load_keeps_unsupported)

theorem unsupported_set_fixed_witness:
  "openRouterDynamicModels
      (lifetime \<lparr>openaiCompatibleModels = [], openaiCompatibleUnsupportedModels = [OpenAICompatible ''lm'' ''a'']\<rparr>
          [''OPENROUTER_API_KEY'' \<mapsto> ''sk-or-1''] FetchRejected
          [TimerFires [''OPENROUTER_API_KEY'' \<mapsto> ''sk-or-1'']
             (Response True (Some (JObj [(''data'', JArr [JObj [(''id'', JStr ''o4-mini'')]])])))])
     = [(''o4-mini'', OpenRouter 7 ''o4-mini'')]
   \<and> isToolCallUnsupportedModel
      (lifetime \<lparr>openaiCompatibleModels = [], openaiCompatibleUnsupportedModels = [OpenAICompatible ''lm'' ''a'']\<rparr>
          [''OPENROUTER_API_KEY'' \<mapsto> ''sk-or-1''] FetchRejected
          [TimerFires [''OPENROUTER_API_KEY'' \<mapsto> ''sk-or-1'']
             (Response True (Some (JObj [(''data'', JArr [JObj [(''id'', JStr ''o4-mini'')]])])))])
      (OpenAI ''o4-mini'')
   \<and> isToolCallUnsupportedModel
      (lifetime \<lparr>openaiCompatibleModels = [], openaiCompatibleUnsupportedModels = [OpenAICompatible ''lm'' ''a'']\<rparr>
          [''OPENROUTER_API_KEY'' \<mapsto> ''sk-or-1''] FetchRejected
          [TimerFires [''OPENROUTER_API_KEY'' \<mapsto> ''sk-or-1'']
             (Response True (Some (JObj [(''data'', JArr [JObj [(''id'', JStr ''o4-mini'')]])])))])
      (OpenAICompatible ''lm'' ''a'')
   \<and> \<not> isToolCallUnsupportedModel
      (lifetime \<lparr>openaiCompatibleModels = [], openaiCompatibleUnsupportedModels = [OpenAICompatible ''lm'' ''a'']\<rparr>
          [''OPENROUTER_API_KEY'' \<mapsto> ''sk-or-1''] FetchRejected
          [TimerFires [''OPENROUTER_API_KEY'' \<mapsto> ''sk-or-1'']
             (Response True (Some (JObj [(''data'', JArr [JObj [(''id'', JStr ''o4-mini'')]])])))])
      (OpenRouter 7 ''o4-mini'')"
proof -
  let ?c = "\<lparr>openaiCompatibleModels = [], openaiCompatibleUnsupportedModels = [OpenAICompatible ''lm'' ''a'']\<rparr>"
  let ?env = "[''OPENROUTER_API_KEY'' \<mapsto> ''sk-or-1'']"
  let ?evs = "[TimerFires [''OPENROUTER_API_KEY'' \<mapsto> ''sk-or-1'']
             (Response True (Some (JObj [(''data'', JArr [JObj [(''id'', JStr ''o4-mini'')]])])))]"
  have t: "openRouterDynamicModels (lifetime ?c ?env FetchRejected ?evs)
             = [(''o4-mini'', OpenRouter 7 ''o4-mini'')]"
    by code_simp
  note u = unsupported_set_fixed [of ?c ?env FetchRejected ?evs _ "[]" "initial_registry ?c", THEN conjunct1]
  have a: "isToolCallUnsupportedModel (lifetime ?c ?env FetchRejected ?evs) (OpenAI ''o4-mini'')"
    "isToolCallUnsupportedModel (lifetime ?c ?env FetchRejected ?evs) (OpenAICompatible ''lm'' ''a'')"
    "\<not> isToolCallUnsupportedModel (lifetime ?c ?env FetchRejected ?evs) (OpenRouter 7 ''o4-mini'')"
    by (simp_all only: u, simp_all add: staticUnsupportedModels_def)
  from t a show ?thesis by (intro conjI)
qed

lemma run_without_timer: "\<not> openRouterRefreshTimer s \<Longrightarrow> run evs s = s"
proof (induction evs)
  case Nil
  show ?case by simp
next
  case (Cons ev evs)
  then show ?case by (cases ev) simp
qed

text \<open>
  C6. When the variable \<^verbatim>\<open>OPENROUTER_API_KEY\<close> is not set, is empty or is \<^verbatim>\<open>****\<close>
  while the module is loaded, then whatever happens later (any events, in any environment):
  \<^verbatim>\<open>refreshOpenRouterModels\<close> is never entered, no request is sent, the timer is never set,
  and the dynamic table is the seed table.
\<close>

theorem no_credential_no_refresh:
  "env ''OPENROUTER_API_KEY'' = None \<or> env ''OPENROUTER_API_KEY'' = Some []
     \<or> env ''OPENROUTER_API_KEY'' = Some ''****''
   \<Longrightarrow> lifetime c env outcome evs = initial_registry c
       \<and> refresh_calls (initial_registry c) = 0
       \<and> fetches (initial_registry c) = 0
       \<and> \<not> openRouterRefreshTimer (initial_registry c)
       \<and> openRouterDynamicModels (initial_registry c) = seedModels"
proof -
  assume k: "env ''OPENROUTER_API_KEY'' = None \<or> env ''OPENROUTER_API_KEY'' = Some []
     \<or> env ''OPENROUTER_API_KEY'' = Some ''****''"
  then have "\<not> checkProviderAPIKey env ''openRouter''"
    by (auto simp add: checkProviderAPIKey_def usable_key_def)
  then have l: "load_module c env outcome = initial_registry c"
    by (simp add: load_module_def startOpenRouterRefreshSchedule_def)
  have t: "\<not> openRouterRefreshTimer (initial_registry c)"
    by (simp add: initial_registry_def)
  from l run_without_timer [OF t, of evs] have "lifetime c env outcome evs = initial_registry c"
    by (simp add: lifetime_def)
  then show ?thesis by (simp add: initial_registry_def)
qed

theorem no_credential_no_refresh_witness:
  "[''OPENROUTER_API_KEY'' \<mapsto> ''****''] ''OPENROUTER_API_KEY'' = Some ''****''
   \<and> lifetime \<lparr>openaiCompatibleModels = [], openaiCompatibleUnsupportedModels = []\<rparr>
        [''OPENROUTER_API_KEY'' \<mapsto> ''****''] (Response True (Some (JObj [(''data'', JArr [JObj [(''id'', JStr ''B'')]])])))
        [TimerFires [''OPENROUTER_API_KEY'' \<mapsto> ''sk-or-1'']
           (Response True (Some (JObj [(''data'', JArr [JObj [(''id'', JStr ''B'')]])])))]
      = initial_registry \<lparr>openaiCompatibleModels = [], openaiCompatibleUnsupportedModels = []\<rparr>
   \<and> openRouterDynamicModels (initial_registry \<lparr>openaiCompatibleModels = [], openaiCompatibleUnsupportedModels = []\<rparr>) = seedModels"
  using no_credential_no_refresh [of "[''OPENROUTER_API_KEY'' \<mapsto> ''****'']"
      "\<lparr>openaiCompatibleModels = [], openaiCompatibleUnsupportedModels = []\<rparr>"
      "Response True (Some (JObj [(''data'', JArr [JObj [(''id'', JStr ''B'')]])]))"
      "[TimerFires [''OPENROUTER_API_KEY'' \<mapsto> ''sk-or-1'']
           (Response True (Some (JObj [(''data'', JArr [JObj [(''id'', JStr ''B'')]])])))]"]
  by simp

section \<open>Properties of the refresh\<close>

subsection \<open>The loop body and the loop\<close>

lemma raises_truthy: "isl (js_Number x) \<Longrightarrow> truthy x"
  by (cases x; cases "the x") (auto split: if_splits)

lemma assign_fresh_simps:
  "upserts (assign_fresh i v) = upserts v"
  "built (assign_fresh i v) = Suc (built v)"
  "fresh (assign_fresh i v)
     = (if i = ''__proto__'' then fresh v else js_set i (OpenRouter (built v) i) (fresh v))"
  "fresh_prototype (assign_fresh i v)
     = (if i = ''__proto__'' then Some (OpenRouter (built v) i) else fresh_prototype v)"
  by (simp_all add: assign_fresh_def)

lemma loop_body_skip: "entry_id m = None \<Longrightarrow> loop_body m v = Completed v"
  by (simp add: loop_body_def)

lemma loop_body_entry:
  assumes "entry_id m = Some i"
  shows "loop_body m v =
     (let v1 = assign_fresh i v in
      if conversion_raises m then Threw v1
      else if truthy (price_field m ''prompt'') \<and> truthy (price_field m ''completion'')
              \<and> js_Number (price_field m ''prompt'') \<noteq> Inr NaN
              \<and> js_Number (price_field m ''completion'') \<noteq> Inr NaN
      then Completed (v1\<lparr> upserts := upserts v1 @
                 [\<lparr> modelId = i,
                    promptPrice = projr (js_Number (price_field m ''prompt'')),
                    completionPrice = projr (js_Number (price_field m ''completion'')),
                    requestPrice = (if truthy (price_field m ''request'')
                                    then Some (projr (js_Number (price_field m ''request''))) else None),
                    currency = ''USD'',
                    updatedAt = None \<rparr>] \<rparr>)
      else Completed v1)"
proof (cases "get_prop m ''pricing''")
  case None
  then show ?thesis using assms
    by (simp add: loop_body_def price_field_def conversion_raises_def Let_def)
next
  case (Some p)
  then have pf: "price_field m k = get_prop p k" for k
    by (simp add: price_field_def)
  have tp: "truthy (get_prop p ''prompt'') \<Longrightarrow> truthy (Some p)"
    by (cases p) simp_all
  show ?thesis
  proof (cases "truthy (get_prop p ''prompt'') \<and> truthy (get_prop p ''completion'')")
    case False
    then show ?thesis using assms Some pf
      by (auto simp add: loop_body_def conversion_raises_def Let_def)
  next
    case True
    show ?thesis
    proof (cases "js_Number (get_prop p ''prompt'')")
      case (Inl e)
      then show ?thesis using assms Some tp True
        by (simp add: loop_body_def conversion_raises_def Let_def pf)
    next
      case pp: (Inr a)
      show ?thesis
      proof (cases "js_Number (get_prop p ''completion'')")
        case (Inl e)
        then show ?thesis using assms Some tp True pp
          by (simp add: loop_body_def conversion_raises_def Let_def pf)
      next
        case cp: (Inr b)
        show ?thesis
        proof (cases "js_Number (get_prop p ''request'')")
          case (Inl e)
          then have "truthy (get_prop p ''request'')"
            using raises_truthy [of "get_prop p ''request''"] by simp
          with Inl show ?thesis using assms Some tp True pp cp
            by (simp add: loop_body_def conversion_raises_def Let_def pf)
        next
          case (Inr r)
          then show ?thesis using assms Some tp True pp cp
            by (simp add: loop_body_def conversion_raises_def Let_def pf isNaN_def)
        qed
      qed
    qed
  qed
qed

lemma not_raises_without_id: "entry_id m = None \<Longrightarrow> \<not> conversion_raises m"
  by (simp add: conversion_raises_def)

lemma loop_body_threw: "(\<exists>v'. loop_body m v = Threw v') = conversion_raises m"
proof (cases "entry_id m")
  case None
  then show ?thesis by (simp add: loop_body_skip not_raises_without_id)
next
  case (Some i)
  show ?thesis unfolding loop_body_entry [OF Some] by (simp add: Let_def)
qed

lemma entry_upserts_cases:
  "entry_upserts m =
     (case entry_id m of
        None \<Rightarrow> []
      | Some i \<Rightarrow>
          if \<not> conversion_raises m
             \<and> truthy (price_field m ''prompt'') \<and> truthy (price_field m ''completion'')
             \<and> js_Number (price_field m ''prompt'') \<noteq> Inr NaN
             \<and> js_Number (price_field m ''completion'') \<noteq> Inr NaN
          then [\<lparr> modelId = i,
                  promptPrice = projr (js_Number (price_field m ''prompt'')),
                  completionPrice = projr (js_Number (price_field m ''completion'')),
                  requestPrice = (if truthy (price_field m ''request'')
                                  then Some (projr (js_Number (price_field m ''request''))) else None),
                  currency = ''USD'',
                  updatedAt = None \<rparr>]
          else [])"
proof (cases "entry_id m")
  case None
  then show ?thesis by (simp add: entry_upserts_def loop_body_skip)
next
  case (Some i)
  show ?thesis
    unfolding entry_upserts_def loop_body_entry [OF Some]
    by (simp add: Some Let_def assign_fresh_simps)
qed

lemma loop_body_upserts:
  "upserts (case loop_body m v of Completed v' \<Rightarrow> v' | Threw v' \<Rightarrow> v') = upserts v @ entry_upserts m"
proof (cases "entry_id m")
  case None
  then show ?thesis by (simp add: loop_body_skip entry_upserts_cases)
next
  case (Some i)
  show ?thesis
    unfolding loop_body_entry [OF Some]
    by (simp add: Some Let_def assign_fresh_simps entry_upserts_cases)
qed

lemma raising_entry_upserts: "conversion_raises m \<Longrightarrow> entry_upserts m = []"
  by (simp add: entry_upserts_cases split: option.splits)

lemma for_of_upserts:
  "upserts (case for_of ms v of Completed v' \<Rightarrow> v' | Threw v' \<Rightarrow> v')
     = upserts v @ concat (map entry_upserts (completed_entries ms))"
proof (induction ms arbitrary: v)
  case Nil
  show ?case by (simp add: completed_entries_def)
next
  case (Cons m ms)
  show ?case
  proof (cases "loop_body m v")
    case (Completed v1)
    then have nr: "\<not> conversion_raises m"
      using loop_body_threw [of m v] by simp
    from loop_body_upserts [of m v] Completed have "upserts v1 = upserts v @ entry_upserts m"
      by simp
    with Cons.IH [of v1] Completed nr show ?thesis
      by (simp add: completed_entries_def)
  next
    case (Threw v1)
    then have r: "conversion_raises m"
      using loop_body_threw [of m v] by auto
    from loop_body_upserts [of m v] Threw have "upserts v1 = upserts v @ entry_upserts m"
      by simp
    with Threw r show ?thesis
      by (simp add: completed_entries_def raising_entry_upserts)
  qed
qed



lemma catalogue_ids_Nil: "catalogue_ids [] = []"
  by (simp add: catalogue_ids_def map_filter_simps)

lemma catalogue_ids_Cons:
  "catalogue_ids (m # ms) = (case entry_id m of None \<Rightarrow> catalogue_ids ms | Some i \<Rightarrow> i # catalogue_ids ms)"
  by (simp add: catalogue_ids_def map_filter_simps split: option.splits)

lemma loop_body_completed:
  assumes "loop_body m v = Completed v'"
  shows "(entry_id m = None \<and> v' = v)
       \<or> (\<exists>i. entry_id m = Some i
              \<and> fresh v' = fresh (assign_fresh i v)
              \<and> fresh_prototype v' = fresh_prototype (assign_fresh i v)
              \<and> built v' = Suc (built v))"
proof (cases "entry_id m")
  case None
  with assms show ?thesis by (simp add: loop_body_skip)
next
  case (Some i)
  from assms show ?thesis
    unfolding loop_body_entry [OF Some]
    by (auto simp add: Let_def Some assign_fresh_simps split: if_splits)
qed

lemma for_of_Cons_completed:
  assumes "for_of (m # ms) v = Completed v'"
  obtains v1 where "loop_body m v = Completed v1" "for_of ms v1 = Completed v'"
  using assms by (cases "loop_body m v") simp_all

lemma catalogue_ids_split: "catalogue_ids (m # ms) = catalogue_ids [m] @ catalogue_ids ms"
  by (simp add: catalogue_ids_Cons catalogue_ids_Nil split: option.splits)

lemma loop_body_keys:
  assumes "loop_body m v = Completed v1"
  shows "fst ` set (fresh v1) = fst ` set (fresh v) \<union> (set (catalogue_ids [m]) - {''__proto__''})"
  using loop_body_completed [OF assms]
proof (elim disjE exE conjE)
  assume "entry_id m = None" "v1 = v"
  then show ?thesis by (simp add: catalogue_ids_Cons catalogue_ids_Nil)
next
  fix i
  assume "entry_id m = Some i" "fresh v1 = fresh (assign_fresh i v)"
  then show ?thesis
    by (simp add: assign_fresh_simps keys_js_set catalogue_ids_Cons catalogue_ids_Nil)
qed

lemma for_of_keys:
  "for_of ms v = Completed v'
     \<Longrightarrow> fst ` set (fresh v') = fst ` set (fresh v) \<union> (set (catalogue_ids ms) - {''__proto__''})"
proof (induction ms arbitrary: v)
  case Nil
  then show ?case by (simp add: catalogue_ids_Nil)
next
  case (Cons m ms)
  from Cons.prems obtain v1 where b: "loop_body m v = Completed v1" and r: "for_of ms v1 = Completed v'"
    by (rule for_of_Cons_completed)
  have "fst ` set (fresh v') = (fst ` set (fresh v) \<union> (set (catalogue_ids [m]) - {''__proto__''}))
           \<union> (set (catalogue_ids ms) - {''__proto__''})"
    using Cons.IH [OF r] loop_body_keys [OF b] by simp
  also have "\<dots> = fst ` set (fresh v) \<union> (set (catalogue_ids (m # ms)) - {''__proto__''})"
    by (simp only: catalogue_ids_split [of m ms] set_append Un_assoc Un_Diff)
  finally show ?case .
qed

lemma for_of_built:
  "for_of ms v = Completed v' \<Longrightarrow> built v' = built v + length (catalogue_ids ms)"
proof (induction ms arbitrary: v)
  case Nil
  then show ?case by (simp add: catalogue_ids_Nil)
next
  case (Cons m ms)
  from Cons.prems obtain v1 where b: "loop_body m v = Completed v1" and r: "for_of ms v1 = Completed v'"
    by (rule for_of_Cons_completed)
  from loop_body_completed [OF b] Cons.IH [OF r] show ?case
    by (auto simp add: catalogue_ids_Cons)
qed

lemma for_of_distinct:
  "for_of ms v = Completed v' \<Longrightarrow> distinct (map fst (fresh v)) \<Longrightarrow> distinct (map fst (fresh v'))"
proof (induction ms arbitrary: v)
  case Nil
  then show ?case by simp
next
  case (Cons m ms)
  from Cons.prems(1) obtain v1 where b: "loop_body m v = Completed v1" and r: "for_of ms v1 = Completed v'"
    by (rule for_of_Cons_completed)
  from loop_body_completed [OF b] Cons.prems(2) have "distinct (map fst (fresh v1))"
    by (auto simp add: assign_fresh_simps distinct_js_set)
  with Cons.IH [OF r] show ?case .
qed

lemma for_of_handles:
  "for_of ms v = Completed v' \<Longrightarrow> map_of (fresh v') i = Some h
     \<Longrightarrow> map_of (fresh v) i = Some h \<or> (\<exists>n. built v \<le> n \<and> n < built v' \<and> h = OpenRouter n i)"
proof (induction ms arbitrary: v)
  case Nil
  then show ?case by simp
next
  case (Cons m ms)
  from Cons.prems(1) obtain v1 where b: "loop_body m v = Completed v1" and r: "for_of ms v1 = Completed v'"
    by (rule for_of_Cons_completed)
  have mono: "built v1 \<le> built v'" using for_of_built [OF r] by simp
  from Cons.IH [OF r Cons.prems(2)]
  consider "map_of (fresh v1) i = Some h" | n where "built v1 \<le> n" "n < built v'" "h = OpenRouter n i"
    by blast
  then show ?case
  proof cases
    case 1
    with loop_body_completed [OF b] mono show ?thesis
      by (auto simp add: assign_fresh_simps map_of_js_set split: if_splits)
  next
    case 2
    with loop_body_completed [OF b] show ?thesis by auto
  qed
qed

lemma for_of_prototype:
  "for_of ms v = Completed v' \<Longrightarrow> fresh_prototype v' = Some p
     \<Longrightarrow> fresh_prototype v = Some p
         \<or> (\<exists>n. built v \<le> n \<and> n < built v' \<and> p = OpenRouter n ''__proto__'')"
proof (induction ms arbitrary: v)
  case Nil
  then show ?case by simp
next
  case (Cons m ms)
  from Cons.prems(1) obtain v1 where b: "loop_body m v = Completed v1" and r: "for_of ms v1 = Completed v'"
    by (rule for_of_Cons_completed)
  have mono: "built v1 \<le> built v'" using for_of_built [OF r] by simp
  from Cons.IH [OF r Cons.prems(2)]
  consider "fresh_prototype v1 = Some p"
    | n where "built v1 \<le> n" "n < built v'" "p = OpenRouter n ''__proto__''"
    by blast
  then show ?case
  proof cases
    case 1
    with loop_body_completed [OF b] mono show ?thesis
      by (auto simp add: assign_fresh_simps split: if_splits)
  next
    case 2
    with loop_body_completed [OF b] show ?thesis by auto
  qed
qed

lemma for_of_prototype_kept:
  "for_of ms v = Completed v' \<Longrightarrow> ''__proto__'' \<notin> set (catalogue_ids ms)
     \<Longrightarrow> fresh_prototype v' = fresh_prototype v"
proof (induction ms arbitrary: v)
  case Nil
  then show ?case by simp
next
  case (Cons m ms)
  from Cons.prems(1) obtain v1 where b: "loop_body m v = Completed v1" and r: "for_of ms v1 = Completed v'"
    by (rule for_of_Cons_completed)
  from Cons.prems(2) have n: "entry_id m \<noteq> Some ''__proto__''" "''__proto__'' \<notin> set (catalogue_ids ms)"
    by (auto simp add: catalogue_ids_Cons split: option.splits)
  from loop_body_completed [OF b] n(1) have "fresh_prototype v1 = fresh_prototype v"
    by (auto simp add: assign_fresh_simps)
  with Cons.IH [OF r n(2)] show ?case by simp
qed

lemma fresh_table:
  assumes "for_of ms \<lparr> fresh = [], fresh_prototype = None, upserts = [], built = b \<rparr> = Completed v"
  shows "fst ` set (fresh v) = set (catalogue_ids ms) - {''__proto__''}"
    and "distinct (map fst (fresh v))"
    and "map_of (fresh v) i = Some h \<Longrightarrow> \<exists>n. b \<le> n \<and> n < built v \<and> h = OpenRouter n i"
    and "fresh_prototype v = Some p \<Longrightarrow> \<exists>n. b \<le> n \<and> n < built v \<and> p = OpenRouter n ''__proto__''"
  using for_of_keys [OF assms] for_of_distinct [OF assms] for_of_handles [OF assms, of i h]
    for_of_prototype [OF assms, of p]
  by simp_all

lemma nothing_accepted:
  assumes "catalogue_ids ms = []"
  shows "for_of ms v = Completed v"
  using assms
proof (induction ms)
  case Nil
  show ?case by simp
next
  case (Cons m ms)
  from Cons.prems have "entry_id m = None" "catalogue_ids ms = []"
    by (auto simp add: catalogue_ids_Cons split: option.splits)
  with Cons.IH show ?case by (simp add: loop_body_skip)
qed

subsection \<open>One refresh\<close>

lemma refresh_fetched:
  assumes "env ''OPENROUTER_API_KEY'' = Some k" "k \<noteq> []" "k \<noteq> ''****''"
  shows "refreshOpenRouterModels env (Response True (Some data)) s =
     (case for_of (entry_list data)
             \<lparr> fresh = [], fresh_prototype = None, upserts = [], built = handles_built s \<rparr> of
        Threw v \<Rightarrow>
          s\<lparr> refresh_calls := refresh_calls s + 1, fetches := fetches s + 1,
             upserts_issued := upserts_issued s @ upserts v, handles_built := built v \<rparr>
      | Completed v \<Rightarrow>
          if fresh v \<noteq> []
          then s\<lparr> refresh_calls := refresh_calls s + 1, fetches := fetches s + 1,
                  openRouterDynamicModels := fresh v, dynamic_prototype := fresh_prototype v,
                  upserts_issued := upserts_issued s @ upserts v, handles_built := built v \<rparr>
          else s\<lparr> refresh_calls := refresh_calls s + 1, fetches := fetches s + 1,
                  upserts_issued := upserts_issued s @ upserts v, handles_built := built v \<rparr>)"
  using assms by (simp add: refreshOpenRouterModels_def Let_def split: loop_result.splits)

lemma refresh_quiet:
  assumes "outcome = FetchRejected \<or> (\<exists>b. outcome = Response False b) \<or> outcome = Response True None
            \<or> (\<exists>data. outcome = Response True (Some data) \<and> catalogue_ids (entry_list data) = [])"
  shows "openRouterDynamicModels (refreshOpenRouterModels env outcome s) = openRouterDynamicModels s
       \<and> dynamic_prototype (refreshOpenRouterModels env outcome s) = dynamic_prototype s
       \<and> upserts_issued (refreshOpenRouterModels env outcome s) = upserts_issued s"
  using assms
proof (elim disjE exE conjE)
  fix data
  assume o: "outcome = Response True (Some data)" and e: "catalogue_ids (entry_list data) = []"
  show ?thesis
    by (simp add: o refreshOpenRouterModels_def Let_def nothing_accepted [OF e] split: option.splits)
qed (simp_all add: refreshOpenRouterModels_def Let_def split: option.splits)

lemma entry_list_malformed:
  assumes "\<forall>xs. get_prop body ''data'' \<noteq> Some (JArr xs)" "\<forall>ys. get_prop body ''models'' \<noteq> Some (JArr ys)"
  shows "entry_list body = []"
  using assms by (auto simp add: entry_list_def split: option.splits json.splits)

lemma refresh_table_cases:
  "(openRouterDynamicModels (refreshOpenRouterModels env outcome s) = openRouterDynamicModels s
      \<and> dynamic_prototype (refreshOpenRouterModels env outcome s) = dynamic_prototype s)
   \<or> (\<exists>data v. outcome = Response True (Some data)
         \<and> for_of (entry_list data)
               \<lparr> fresh = [], fresh_prototype = None, upserts = [], built = handles_built s \<rparr> = Completed v
         \<and> openRouterDynamicModels (refreshOpenRouterModels env outcome s) = fresh v
         \<and> dynamic_prototype (refreshOpenRouterModels env outcome s) = fresh_prototype v
         \<and> handles_built (refreshOpenRouterModels env outcome s) = built v)"
  by (simp add: refreshOpenRouterModels_def Let_def
           split: option.splits fetch_outcome.splits loop_result.splits)

lemma refresh_swap_or_keep:
  "(openRouterDynamicModels (refreshOpenRouterModels env outcome s) = openRouterDynamicModels s
      \<and> dynamic_prototype (refreshOpenRouterModels env outcome s) = dynamic_prototype s)
   \<or> (\<exists>data. outcome = Response True (Some data)
         \<and> fst ` set (openRouterDynamicModels (refreshOpenRouterModels env outcome s))
             = set (catalogue_ids (entry_list data)) - {''__proto__''}
         \<and> (\<forall>i h. map_of (openRouterDynamicModels (refreshOpenRouterModels env outcome s)) i = Some h
               \<longrightarrow> (\<exists>n. handles_built s \<le> n
                         \<and> n < handles_built (refreshOpenRouterModels env outcome s)
                         \<and> h = OpenRouter n i))
         \<and> (\<forall>p. dynamic_prototype (refreshOpenRouterModels env outcome s) = Some p
               \<longrightarrow> (\<exists>n. handles_built s \<le> n
                         \<and> n < handles_built (refreshOpenRouterModels env outcome s)
                         \<and> p = OpenRouter n ''__proto__'')))"
  using refresh_table_cases [of env outcome s]
proof (elim disjE exE conjE)
  assume "openRouterDynamicModels (refreshOpenRouterModels env outcome s) = openRouterDynamicModels s"
    "dynamic_prototype (refreshOpenRouterModels env outcome s) = dynamic_prototype s"
  then show ?thesis by simp
next
  fix data v
  assume o: "outcome = Response True (Some data)"
    and f: "for_of (entry_list data)
               \<lparr> fresh = [], fresh_prototype = None, upserts = [], built = handles_built s \<rparr> = Completed v"
    and t: "openRouterDynamicModels (refreshOpenRouterModels env outcome s) = fresh v"
    and p: "dynamic_prototype (refreshOpenRouterModels env outcome s) = fresh_prototype v"
    and b: "handles_built (refreshOpenRouterModels env outcome s) = built v"
  have handles: "\<forall>i h. map_of (fresh v) i = Some h
      \<longrightarrow> (\<exists>n. handles_built s \<le> n \<and> n < built v \<and> h = OpenRouter n i)"
  proof (intro allI impI)
    fix i h
    assume "map_of (fresh v) i = Some h"
    from fresh_table(3) [OF f this] show "\<exists>n. handles_built s \<le> n \<and> n < built v \<and> h = OpenRouter n i" .
  qed
  have proto: "\<forall>q. fresh_prototype v = Some q
      \<longrightarrow> (\<exists>n. handles_built s \<le> n \<and> n < built v \<and> q = OpenRouter n ''__proto__'')"
  proof (intro allI impI)
    fix q
    assume "fresh_prototype v = Some q"
    from fresh_table(4) [OF f this]
    show "\<exists>n. handles_built s \<le> n \<and> n < built v \<and> q = OpenRouter n ''__proto__''" .
  qed
  have "\<exists>data. outcome = Response True (Some data)
         \<and> fst ` set (openRouterDynamicModels (refreshOpenRouterModels env outcome s))
             = set (catalogue_ids (entry_list data)) - {''__proto__''}
         \<and> (\<forall>i h. map_of (openRouterDynamicModels (refreshOpenRouterModels env outcome s)) i = Some h
               \<longrightarrow> (\<exists>n. handles_built s \<le> n
                         \<and> n < handles_built (refreshOpenRouterModels env outcome s)
                         \<and> h = OpenRouter n i))
         \<and> (\<forall>p. dynamic_prototype (refreshOpenRouterModels env outcome s) = Some p
               \<longrightarrow> (\<exists>n. handles_built s \<le> n
                         \<and> n < handles_built (refreshOpenRouterModels env outcome s)
                         \<and> p = OpenRouter n ''__proto__''))"
    unfolding t p b
    using o fresh_table(1) [OF f] handles proto
    by (intro exI [of _ data] conjI)
  then show ?thesis by (rule disjI2)
qed

text \<open>
  C3. When the request fails (\<^verbatim>\<open>fetch\<close> rejects, the status is not a success, the body is
  not JSON) or the fetched list has no entry with a valid identifier (it is empty, or every
  entry of it is skipped), the refresh ends with the dynamic table it started with and has
  called no upsert; a body with neither a \<^verbatim>\<open>data\<close> nor a \<^verbatim>\<open>models\<close> array has an
  empty entry list. And every refresh, whatever it fetched, ends with the table it started with
  or with a table built entirely during this refresh: its own keys are exactly the identifiers
  of the fetched entries (\<^verbatim>\<open>__proto__\<close> is never an own key: that assignment sets the
  prototype), and every handle in it, the prototype included, was built by this refresh.
  Nothing of the old table is mixed in.
\<close>

theorem refresh_all_or_nothing:
  "(outcome = FetchRejected \<or> (\<exists>b. outcome = Response False b) \<or> outcome = Response True None
      \<or> (\<exists>data. outcome = Response True (Some data) \<and> catalogue_ids (entry_list data) = [])
    \<longrightarrow> openRouterDynamicModels (refreshOpenRouterModels env outcome s) = openRouterDynamicModels s
        \<and> dynamic_prototype (refreshOpenRouterModels env outcome s) = dynamic_prototype s
        \<and> upserts_issued (refreshOpenRouterModels env outcome s) = upserts_issued s)
   \<and> ((\<forall>xs. get_prop body ''data'' \<noteq> Some (JArr xs)) \<and> (\<forall>ys. get_prop body ''models'' \<noteq> Some (JArr ys))
       \<longrightarrow> entry_list body = [] \<and> catalogue_ids (entry_list body) = [])
   \<and> ((openRouterDynamicModels (refreshOpenRouterModels env outcome s) = openRouterDynamicModels s
         \<and> dynamic_prototype (refreshOpenRouterModels env outcome s) = dynamic_prototype s)
       \<or> (\<exists>data. outcome = Response True (Some data)
             \<and> fst ` set (openRouterDynamicModels (refreshOpenRouterModels env outcome s))
                 = set (catalogue_ids (entry_list data)) - {''__proto__''}
             \<and> (\<forall>i h. map_of (openRouterDynamicModels (refreshOpenRouterModels env outcome s)) i = Some h
                   \<longrightarrow> (\<exists>n. handles_built s \<le> n
                             \<and> n < handles_built (refreshOpenRouterModels env outcome s)
                             \<and> h = OpenRouter n i))
             \<and> (\<forall>p. dynamic_prototype (refreshOpenRouterModels env outcome s) = Some p
                   \<longrightarrow> (\<exists>n. handles_built s \<le> n
                             \<and> n < handles_built (refreshOpenRouterModels env outcome s)
                             \<and> p = OpenRouter n ''__proto__''))))"
proof (intro conjI impI)
  assume "outcome = FetchRejected \<or> (\<exists>b. outcome = Response False b) \<or> outcome = Response True None
      \<or> (\<exists>data. outcome = Response True (Some data) \<and> catalogue_ids (entry_list data) = [])"
  then show "openRouterDynamicModels (refreshOpenRouterModels env outcome s) = openRouterDynamicModels s"
    and "dynamic_prototype (refreshOpenRouterModels env outcome s) = dynamic_prototype s"
    and "upserts_issued (refreshOpenRouterModels env outcome s) = upserts_issued s"
    using refresh_quiet [of outcome env s] by simp_all
next
  assume a: "(\<forall>xs. get_prop body ''data'' \<noteq> Some (JArr xs)) \<and> (\<forall>ys. get_prop body ''models'' \<noteq> Some (JArr ys))"
  then show e: "entry_list body = []" by (simp add: entry_list_malformed)
  show "catalogue_ids (entry_list body) = []" by (simp add: e catalogue_ids_Nil)
next
  show "(openRouterDynamicModels (refreshOpenRouterModels env outcome s) = openRouterDynamicModels s
         \<and> dynamic_prototype (refreshOpenRouterModels env outcome s) = dynamic_prototype s)
       \<or> (\<exists>data. outcome = Response True (Some data)
             \<and> fst ` set (openRouterDynamicModels (refreshOpenRouterModels env outcome s))
                 = set (catalogue_ids (entry_list data)) - {''__proto__''}
             \<and> (\<forall>i h. map_of (openRouterDynamicModels (refreshOpenRouterModels env outcome s)) i = Some h
                   \<longrightarrow> (\<exists>n. handles_built s \<le> n
                             \<and> n < handles_built (refreshOpenRouterModels env outcome s)
                             \<and> h = OpenRouter n i))
             \<and> (\<forall>p. dynamic_prototype (refreshOpenRouterModels env outcome s) = Some p
                   \<longrightarrow> (\<exists>n. handles_built s \<le> n
                             \<and> n < handles_built (refreshOpenRouterModels env outcome s)
                             \<and> p = OpenRouter n ''__proto__'')))"
    by (rule refresh_swap_or_keep)
qed

theorem refresh_all_or_nothing_witness:
  "catalogue_ids (entry_list (JObj [])) = []
   \<and> openRouterDynamicModels
        (refreshOpenRouterModels [''OPENROUTER_API_KEY'' \<mapsto> ''sk-or-1''] (Response True (Some (JObj [])))
           (initial_registry \<lparr>openaiCompatibleModels = [], openaiCompatibleUnsupportedModels = []\<rparr>))
      = seedModels
   \<and> upserts_issued
        (refreshOpenRouterModels [''OPENROUTER_API_KEY'' \<mapsto> ''sk-or-1''] (Response True (Some (JObj [])))
           (initial_registry \<lparr>openaiCompatibleModels = [], openaiCompatibleUnsupportedModels = []\<rparr>))
      = []
   \<and> openRouterDynamicModels
        (refreshOpenRouterModels [''OPENROUTER_API_KEY'' \<mapsto> ''sk-or-1''] FetchRejected
           (initial_registry \<lparr>openaiCompatibleModels = [], openaiCompatibleUnsupportedModels = []\<rparr>))
      = seedModels
   \<and> catalogue_ids (entry_list (JObj [(''data'', JArr [JObj [], JObj [(''id'', JNum (Num 5))],
                                                       JObj [(''id'', JStr [])]])])) = []
   \<and> openRouterDynamicModels
        (refreshOpenRouterModels [''OPENROUTER_API_KEY'' \<mapsto> ''sk-or-1'']
           (Response True (Some (JObj [(''data'', JArr [JObj [], JObj [(''id'', JNum (Num 5))],
                                                       JObj [(''id'', JStr [])]])])))
           (initial_registry \<lparr>openaiCompatibleModels = [], openaiCompatibleUnsupportedModels = []\<rparr>))
      = seedModels
   \<and> set (catalogue_ids (entry_list (JObj [(''data'', JArr [JObj [(''id'', JStr ''__proto__'')],
                                                             JObj [(''id'', JStr ''B'')]])])))
        - {''__proto__''} = {''B''}
   \<and> openRouterDynamicModels
        (refreshOpenRouterModels [''OPENROUTER_API_KEY'' \<mapsto> ''sk-or-1'']
           (Response True (Some (JObj [(''data'', JArr [JObj [(''id'', JStr ''__proto__'')],
                                                       JObj [(''id'', JStr ''B'')]])])))
           (initial_registry \<lparr>openaiCompatibleModels = [], openaiCompatibleUnsupportedModels = []\<rparr>))
      = [(''B'', OpenRouter 8 ''B'')]
   \<and> dynamic_prototype
        (refreshOpenRouterModels [''OPENROUTER_API_KEY'' \<mapsto> ''sk-or-1'']
           (Response True (Some (JObj [(''data'', JArr [JObj [(''id'', JStr ''__proto__'')],
                                                       JObj [(''id'', JStr ''B'')]])])))
           (initial_registry \<lparr>openaiCompatibleModels = [], openaiCompatibleUnsupportedModels = []\<rparr>))
      = Some (OpenRouter 7 ''__proto__'')
   \<and> fst ` set (openRouterDynamicModels
        (refreshOpenRouterModels [''OPENROUTER_API_KEY'' \<mapsto> ''sk-or-1'']
           (Response True (Some (JObj [(''data'', JArr [JObj [(''id'', JStr ''__proto__'')],
                                                       JObj [(''id'', JStr ''B'')]])])))
           (initial_registry \<lparr>openaiCompatibleModels = [], openaiCompatibleUnsupportedModels = []\<rparr>)))
      = set (catalogue_ids (entry_list (JObj [(''data'', JArr [JObj [(''id'', JStr ''__proto__'')],
                                                              JObj [(''id'', JStr ''B'')]])])))
        - {''__proto__''}"
proof -
  let ?env = "[''OPENROUTER_API_KEY'' \<mapsto> ''sk-or-1'']"
  let ?s = "initial_registry \<lparr>openaiCompatibleModels = [], openaiCompatibleUnsupportedModels = []\<rparr>"
  let ?N = "JObj [(''data'', JArr [JObj [], JObj [(''id'', JNum (Num 5))], JObj [(''id'', JStr [])]])]"
  let ?P = "JObj [(''data'', JArr [JObj [(''id'', JStr ''__proto__'')], JObj [(''id'', JStr ''B'')]])]"
  note a = refresh_all_or_nothing [of "Response True (Some (JObj []))" ?env ?s "JObj []", THEN conjunct1]
  note m = refresh_all_or_nothing [of "Response True (Some (JObj []))" ?env ?s "JObj []",
      THEN conjunct2, THEN conjunct1]
  note b = refresh_all_or_nothing [of FetchRejected ?env ?s "JObj []", THEN conjunct1]
  note c = refresh_all_or_nothing [of "Response True (Some ?N)" ?env ?s "JObj []", THEN conjunct1]
  note d = refresh_all_or_nothing [of "Response True (Some ?P)" ?env ?s "JObj []", THEN conjunct2, THEN conjunct2]
  have s: "openRouterDynamicModels ?s = seedModels" "upserts_issued ?s = []"
    by (simp_all add: initial_registry_def)
  have e: "catalogue_ids (entry_list (JObj [])) = []"
    using m by (simp add: catalogue_ids_Nil)
  have idsN: "catalogue_ids (entry_list ?N) = []"
    by (simp add: entry_list_def catalogue_ids_Cons catalogue_ids_Nil entry_id_def)
  have idsP: "set (catalogue_ids (entry_list ?P)) - {''__proto__''} = {''B''}"
    by (auto simp add: entry_list_def catalogue_ids_Cons catalogue_ids_Nil entry_id_def)
  have 1: "openRouterDynamicModels (refreshOpenRouterModels ?env (Response True (Some (JObj []))) ?s) = seedModels"
    "upserts_issued (refreshOpenRouterModels ?env (Response True (Some (JObj []))) ?s) = []"
    using a e s by simp_all
  have 2: "openRouterDynamicModels (refreshOpenRouterModels ?env FetchRejected ?s) = seedModels"
    using b s by simp
  have 3: "openRouterDynamicModels (refreshOpenRouterModels ?env (Response True (Some ?N)) ?s) = seedModels"
    using c idsN s by simp
  have t: "openRouterDynamicModels (refreshOpenRouterModels ?env (Response True (Some ?P)) ?s)
             = [(''B'', OpenRouter 8 ''B'')]"
    by code_simp
  have p: "dynamic_prototype (refreshOpenRouterModels ?env (Response True (Some ?P)) ?s)
             = Some (OpenRouter 7 ''__proto__'')"
    by code_simp
  from d have 4: "fst ` set (openRouterDynamicModels (refreshOpenRouterModels ?env (Response True (Some ?P)) ?s))
             = set (catalogue_ids (entry_list ?P)) - {''__proto__''}"
    unfolding t s by (simp add: seedModels_def)
  from e 1 2 idsN 3 idsP t p 4 show ?thesis by (intro conjI)
qed






subsection \<open>Pricing upserts\<close>

lemma refresh_upserts:
  assumes "env ''OPENROUTER_API_KEY'' = Some k" "k \<noteq> []" "k \<noteq> ''****''"
  shows "upserts_issued (refreshOpenRouterModels env (Response True (Some data)) s)
           = upserts_issued s @ concat (map entry_upserts (completed_entries (entry_list data)))"
proof (cases "for_of (entry_list data)
                \<lparr> fresh = [], fresh_prototype = None, upserts = [], built = handles_built s \<rparr>")
  case (Completed v)
  with for_of_upserts [of "entry_list data"
      "\<lparr> fresh = [], fresh_prototype = None, upserts = [], built = handles_built s \<rparr>"]
  have "upserts v = concat (map entry_upserts (completed_entries (entry_list data)))"
    by simp
  with Completed show ?thesis
    by (simp add: refresh_fetched [of env k, OF assms])
next
  case (Threw v)
  with for_of_upserts [of "entry_list data"
      "\<lparr> fresh = [], fresh_prototype = None, upserts = [], built = handles_built s \<rparr>"]
  have "upserts v = concat (map entry_upserts (completed_entries (entry_list data)))"
    by simp
  with Threw show ?thesis
    by (simp add: refresh_fetched [of env k, OF assms])
qed

lemma not_parsed_cases:
  "\<not> parses_as_number x \<Longrightarrow> isl (js_Number x) \<or> js_Number x = Inr NaN"
  by (cases "js_Number x") (simp_all add: parses_as_number_def isNaN_def)

lemma parsed_value:
  "parses_as_number x \<Longrightarrow> js_Number x = Inr (projr (js_Number x)) \<and> projr (js_Number x) \<noteq> NaN"
  by (cases "js_Number x") (simp_all add: parses_as_number_def isNaN_def)

lemma no_upsert:
  assumes "\<not> parses_as_number (price_field m ''prompt'') \<or> price_field m ''completion'' = None"
  shows "entry_upserts m = []"
proof (cases "entry_id m")
  case None
  then show ?thesis by (simp add: entry_upserts_cases)
next
  case (Some i)
  from assms have "isl (js_Number (price_field m ''prompt'')) \<or> js_Number (price_field m ''prompt'') = Inr NaN
      \<or> \<not> truthy (price_field m ''completion'')"
    using not_parsed_cases [of "price_field m ''prompt''"] by auto
  then show ?thesis
    by (auto simp add: entry_upserts_cases Some conversion_raises_def)
qed

lemma one_upsert:
  assumes "entry_id m = Some i"
    and "truthy (price_field m ''prompt'')" "truthy (price_field m ''completion'')"
    and "parses_as_number (price_field m ''prompt'')" "parses_as_number (price_field m ''completion'')"
    and "\<not> isl (js_Number (price_field m ''request''))"
  shows "entry_upserts m =
           [\<lparr> modelId = i,
              promptPrice = projr (js_Number (price_field m ''prompt'')),
              completionPrice = projr (js_Number (price_field m ''completion'')),
              requestPrice =
                (case price_field m ''request'' of
                   None \<Rightarrow> None
                 | Some r \<Rightarrow> if truthy (Some r) then Some (projr (js_Number (Some r))) else None),
              currency = ''USD'',
              updatedAt = None \<rparr>]"
proof -
  from parsed_value [OF assms(4)] parsed_value [OF assms(5)]
  have n: "\<not> isl (js_Number (price_field m ''prompt''))" "\<not> isl (js_Number (price_field m ''completion''))"
    "js_Number (price_field m ''prompt'') \<noteq> Inr NaN" "js_Number (price_field m ''completion'') \<noteq> Inr NaN"
    by (metis sum.disc(2), metis sum.disc(2), metis sum.inject(2), metis sum.inject(2))
  have r: "(if truthy (price_field m ''request'') then Some (projr (js_Number (price_field m ''request''))) else None)
      = (case price_field m ''request'' of
                     None \<Rightarrow> None
                   | Some r \<Rightarrow> if truthy (Some r) then Some (projr (js_Number (Some r))) else None)"
    by (cases "price_field m ''request''") simp_all
  show ?thesis
    using assms(1,2,3,6) n by (simp add: entry_upserts_cases conversion_raises_def r)
qed

text \<open>
  C4, as stated, fails in its second half: an entry whose \<^verbatim>\<open>prompt\<close> and
  \<^verbatim>\<open>completion\<close> are both there and both convert to numbers is not always upserted. The
  guard \<^verbatim>\<open>pricing.prompt && pricing.completion\<close> tests the raw fields for truthiness, so a
  price that is the number 0 stops the upsert: the first catalogue. And a conversion that
  raises ends the loop: in the second catalogue the \<^verbatim>\<open>request\<close> of entry \<^verbatim>\<open>A\<close> is an
  object \<^verbatim>\<open>Number\<close> raises on, so neither \<^verbatim>\<open>A\<close> nor the entry \<^verbatim>\<open>B\<close> after
  it, both with numeric \<^verbatim>\<open>prompt\<close> and \<^verbatim>\<open>completion\<close>, is upserted.
\<close>

theorem pricing_upsert_counterexample:
  "price_field (JObj [(''id'', JStr ''free-model''),
                      (''pricing'', JObj [(''prompt'', JNum (Num 0)), (''completion'', JStr ''0.000002'')])]) ''prompt''
     = Some (JNum (Num 0))
   \<and> parses_as_number (Some (JNum (Num 0)))
   \<and> parses_as_number (Some (JStr ''0.000002''))
   \<and> upserts_issued
        (refreshOpenRouterModels [''OPENROUTER_API_KEY'' \<mapsto> ''sk-or-1'']
           (Response True (Some (JObj [(''data'', JArr
              [JObj [(''id'', JStr ''free-model''),
                     (''pricing'', JObj [(''prompt'', JNum (Num 0)), (''completion'', JStr ''0.000002'')])]])])))
           (initial_registry \<lparr>openaiCompatibleModels = [], openaiCompatibleUnsupportedModels = []\<rparr>))
      = []
   \<and> parses_as_number (Some (JStr ''1''))
   \<and> parses_as_number (Some (JStr ''0.000001''))
   \<and> entry_id (JObj [(''id'', JStr ''B''),
                      (''pricing'', JObj [(''prompt'', JStr ''0.000001''), (''completion'', JStr ''0.000002'')])])
      = Some ''B''
   \<and> upserts_issued
        (refreshOpenRouterModels [''OPENROUTER_API_KEY'' \<mapsto> ''sk-or-1'']
           (Response True (Some (JObj [(''data'', JArr
              [JObj [(''id'', JStr ''A''),
                     (''pricing'', JObj [(''prompt'', JStr ''1''), (''completion'', JStr ''1''),
                                         (''request'', JObj [(''toString'', JNum (Num 1))])])],
               JObj [(''id'', JStr ''B''),
                     (''pricing'', JObj [(''prompt'', JStr ''0.000001''), (''completion'', JStr ''0.000002'')])]])])))
           (initial_registry \<lparr>openaiCompatibleModels = [], openaiCompatibleUnsupportedModels = []\<rparr>))
      = []"
  by code_simp

text \<open>
  C4, amended. The upserts a refresh calls are those of the entries the loop goes through
  before any price conversion raises, in the order of the entries. An entry whose
  \<^verbatim>\<open>prompt\<close> does not convert to a number, or whose \<^verbatim>\<open>completion\<close> is missing, has
  no upsert. An entry with a valid identifier whose \<^verbatim>\<open>prompt\<close> and \<^verbatim>\<open>completion\<close>
  are both truthy and both convert to numbers, and whose \<^verbatim>\<open>request\<close> conversion does not
  raise, has exactly one: for its identifier, with the two converted prices, currency
  \<^verbatim>\<open>USD\<close>, and a request price that is \<^verbatim>\<open>null\<close> when the \<^verbatim>\<open>request\<close> field is
  absent (or falsy) and the converted field otherwise.
\<close>

theorem pricing_upsert:
  "(env ''OPENROUTER_API_KEY'' = Some k \<and> k \<noteq> [] \<and> k \<noteq> ''****''
      \<longrightarrow> upserts_issued (refreshOpenRouterModels env (Response True (Some data)) s)
            = upserts_issued s @ concat (map entry_upserts (completed_entries (entry_list data))))
   \<and> (\<not> parses_as_number (price_field m ''prompt'') \<or> price_field m ''completion'' = None
      \<longrightarrow> entry_upserts m = [])
   \<and> (entry_id m = Some i
        \<and> truthy (price_field m ''prompt'') \<and> truthy (price_field m ''completion'')
        \<and> parses_as_number (price_field m ''prompt'') \<and> parses_as_number (price_field m ''completion'')
        \<and> \<not> isl (js_Number (price_field m ''request''))
      \<longrightarrow> entry_upserts m =
           [\<lparr> modelId = i,
              promptPrice = projr (js_Number (price_field m ''prompt'')),
              completionPrice = projr (js_Number (price_field m ''completion'')),
              requestPrice =
                (case price_field m ''request'' of
                   None \<Rightarrow> None
                 | Some r \<Rightarrow> if truthy (Some r) then Some (projr (js_Number (Some r))) else None),
              currency = ''USD'',
              updatedAt = None \<rparr>])"
proof (intro conjI impI)
  assume "env ''OPENROUTER_API_KEY'' = Some k \<and> k \<noteq> [] \<and> k \<noteq> ''****''"
  then have key: "env ''OPENROUTER_API_KEY'' = Some k" "k \<noteq> []" "k \<noteq> ''****''"
    by simp_all
  show "upserts_issued (refreshOpenRouterModels env (Response True (Some data)) s)
            = upserts_issued s @ concat (map entry_upserts (completed_entries (entry_list data)))"
    by (rule refresh_upserts [of env k, OF key])
next
  assume "\<not> parses_as_number (price_field m ''prompt'') \<or> price_field m ''completion'' = None"
  then show "entry_upserts m = []" by (rule no_upsert)
next
  assume a: "entry_id m = Some i
        \<and> truthy (price_field m ''prompt'') \<and> truthy (price_field m ''completion'')
        \<and> parses_as_number (price_field m ''prompt'') \<and> parses_as_number (price_field m ''completion'')
        \<and> \<not> isl (js_Number (price_field m ''request''))"
  show "entry_upserts m =
           [\<lparr> modelId = i,
              promptPrice = projr (js_Number (price_field m ''prompt'')),
              completionPrice = projr (js_Number (price_field m ''completion'')),
              requestPrice =
                (case price_field m ''request'' of
                   None \<Rightarrow> None
                 | Some r \<Rightarrow> if truthy (Some r) then Some (projr (js_Number (Some r))) else None),
              currency = ''USD'',
              updatedAt = None \<rparr>]"
    using a by (intro one_upsert) simp_all
qed

lemma example_prices:
  "js_Number (Some (JStr ''0.000001'')) = Inr (Num (4722366482869645 / 4722366482869645213696))"
  "js_Number (Some (JStr ''0.000002'')) = Inr (Num (4722366482869645 / 2361183241434822606848))"
  by code_simp+

theorem pricing_upsert_witness:
  "entry_upserts (JObj [(''id'', JStr ''B''),
                        (''pricing'', JObj [(''prompt'', JStr ''0.000001''), (''completion'', JStr ''0.000002'')])])
     = [\<lparr> modelId = ''B'',
          promptPrice = Num (4722366482869645 / 4722366482869645213696),
          completionPrice = Num (4722366482869645 / 2361183241434822606848),
          requestPrice = None, currency = ''USD'', updatedAt = None \<rparr>]
   \<and> entry_upserts (JObj [(''id'', JStr ''C''),
                          (''pricing'', JObj [(''prompt'', JStr ''free''), (''completion'', JStr ''0.000002'')])])
     = []
   \<and> entry_upserts (JObj [(''id'', JStr ''D''), (''pricing'', JObj [(''prompt'', JStr ''0.000001'')])]) = []
   \<and> upserts_issued
        (refreshOpenRouterModels [''OPENROUTER_API_KEY'' \<mapsto> ''sk-or-1'']
           (Response True (Some (JObj [(''data'', JArr
              [JObj [(''id'', JStr ''B''),
                     (''pricing'', JObj [(''prompt'', JStr ''0.000001''), (''completion'', JStr ''0.000002'')])],
               JObj [(''id'', JStr ''C''),
                     (''pricing'', JObj [(''prompt'', JStr ''free''), (''completion'', JStr ''0.000002'')])],
               JObj [(''id'', JStr ''D''), (''pricing'', JObj [(''prompt'', JStr ''0.000001'')])]])])))
           (initial_registry \<lparr>openaiCompatibleModels = [], openaiCompatibleUnsupportedModels = []\<rparr>))
      = [\<lparr> modelId = ''B'',
           promptPrice = Num (4722366482869645 / 4722366482869645213696),
           completionPrice = Num (4722366482869645 / 2361183241434822606848),
           requestPrice = None, currency = ''USD'', updatedAt = None \<rparr>]"
proof -
  let ?B = "JObj [(''id'', JStr ''B''),
                  (''pricing'', JObj [(''prompt'', JStr ''0.000001''), (''completion'', JStr ''0.000002'')])]"
  let ?C = "JObj [(''id'', JStr ''C''),
                  (''pricing'', JObj [(''prompt'', JStr ''free''), (''completion'', JStr ''0.000002'')])]"
  let ?D = "JObj [(''id'', JStr ''D''), (''pricing'', JObj [(''prompt'', JStr ''0.000001'')])]"
  let ?data = "JObj [(''data'', JArr [?B, ?C, ?D])]"
  let ?env = "[''OPENROUTER_API_KEY'' \<mapsto> ''sk-or-1'']"
  let ?s = "initial_registry \<lparr>openaiCompatibleModels = [], openaiCompatibleUnsupportedModels = []\<rparr>"
  let ?rec = "\<lparr> modelId = ''B'',
          promptPrice = Num (4722366482869645 / 4722366482869645213696),
          completionPrice = Num (4722366482869645 / 2361183241434822606848),
          requestPrice = None, currency = ''USD'', updatedAt = None \<rparr>"
  have B: "entry_id ?B = Some ''B''"
    "price_field ?B ''prompt'' = Some (JStr ''0.000001'')"
    "price_field ?B ''completion'' = Some (JStr ''0.000002'')"
    "price_field ?B ''request'' = None"
    by (simp_all add: entry_id_def price_field_def)
  have pB: "parses_as_number (Some (JStr ''0.000001''))" "parses_as_number (Some (JStr ''0.000002''))"
    by (simp_all only: parses_as_number_def example_prices, simp_all add: isNaN_def)
  have C: "price_field ?C ''prompt'' = Some (JStr ''free'')"
    by (simp add: price_field_def)
  have pC: "\<not> parses_as_number (Some (JStr ''free''))"
    by code_simp
  have D: "price_field ?D ''completion'' = None"
    by (simp add: price_field_def)
  from pricing_upsert [of ?env "''sk-or-1''" ?data ?s ?B "''B''", THEN conjunct2, THEN conjunct2] B pB
  have 1: "entry_upserts ?B = [?rec]"
    by (simp add: example_prices del: js_Number.simps(2))
  from pricing_upsert [of ?env "''sk-or-1''" ?data ?s ?C, THEN conjunct2, THEN conjunct1] C pC
  have 2: "entry_upserts ?C = []"
    by simp
  from pricing_upsert [of ?env "''sk-or-1''" ?data ?s ?D, THEN conjunct2, THEN conjunct1] D
  have 3: "entry_upserts ?D = []"
    by simp
  have l: "entry_list ?data = [?B, ?C, ?D]"
    by (simp add: entry_list_def)
  have c: "completed_entries [?B, ?C, ?D] = [?B, ?C, ?D]"
    by (simp add: completed_entries_def conversion_raises_def price_field_def)
  have u: "upserts_issued ?s = []"
    by (simp add: initial_registry_def)
  from pricing_upsert [of ?env "''sk-or-1''" ?data ?s ?B, THEN conjunct1]
  have 4: "upserts_issued (refreshOpenRouterModels ?env (Response True (Some ?data)) ?s) = [?rec]"
    by (simp only: l c u) (simp add: 1 2 3)
  from 1 2 3 4 show ?thesis by (intro conjI)
qed

end
